theory Spec2Isabelle
  imports Main "HOL-Library.Sublist" "HOL-Library.AList"
begin

section \<open>Python values and the primitives that search.py applies to them\<close>

text \<open>
  A document of the corpus is whatever \<open>json.load\<close> returns: an arbitrary JSON value.
  \<open>JObj\<close> is a Python dict after parsing, so its keys are distinct and kept in
  insertion order; \<open>JNum\<close> stands for every number (no operation of search.py looks
  inside one). A string is the UTF-8 encoding of the Python string. \<open>lower\<close> is
  \<open>str.lower\<close> on ASCII strings: it maps the letters A to Z and leaves every other byte
  as it is, where \<open>str.lower\<close> also maps the cased letters beyond ASCII, by tables that
  are not part of this program. Every statement below that depends on the value of
  \<open>lower\<close> is made for ASCII strings.
\<close>

datatype json =
    JNull
  | JBool bool
  | JNum int
  | JStr string
  | JArr "json list"
  | JObj "(string \<times> json) list"

datatype error =
    AttributeError
  | TypeError
  | JSONDecodeError
  | UnicodeDecodeError
  | FileNotFoundError
  | OSError
  | KeyError

text \<open>An exception ends the computation it is raised in: \<open>bind m f\<close> runs \<open>f\<close> on
  the value of \<open>m\<close>, or passes the exception of \<open>m\<close> on.\<close>

definition bind :: "error + 'a \<Rightarrow> ('a \<Rightarrow> error + 'b) \<Rightarrow> error + 'b" where
  "bind m f = (case m of Inl e \<Rightarrow> Inl e | Inr x \<Rightarrow> f x)"

definition lower_char :: "char \<Rightarrow> char" where
  "lower_char c =
     (case map_of (zip ''ABCDEFGHIJKLMNOPQRSTUVWXYZ'' ''abcdefghijklmnopqrstuvwxyz'') c of
        Some d \<Rightarrow> d
      | None \<Rightarrow> c)"

definition lower :: "string \<Rightarrow> string" where
  "lower s = map lower_char s"

text \<open>\<open>v.get(k, d)\<close>: only a dict has the method.\<close>

fun py_get :: "json \<Rightarrow> string \<Rightarrow> json \<Rightarrow> error + json" where
  "py_get (JObj kvs) k d = Inr (case map_of kvs k of Some v \<Rightarrow> v | None \<Rightarrow> d)"
| "py_get _ k d = Inl AttributeError"

text \<open>\<open>v.lower()\<close>: only a string has the method.\<close>

fun py_lower :: "json \<Rightarrow> error + string" where
  "py_lower (JStr s) = Inr (lower s)"
| "py_lower _ = Inl AttributeError"

text \<open>\<open>for x in v\<close>: a list gives its elements, a dict its keys, a string its characters;
  nothing else is iterable.\<close>

fun py_iter :: "json \<Rightarrow> error + json list" where
  "py_iter (JArr xs) = Inr xs"
| "py_iter (JObj kvs) = Inr (map (\<lambda>kv. JStr (fst kv)) kvs)"
| "py_iter (JStr s) = Inr (map (\<lambda>c. JStr [c]) s)"
| "py_iter _ = Inl TypeError"

text \<open>\<open>s in v\<close> for a string \<open>s\<close>: substring of a string, element of a list, key of a dict;
  \<open>TypeError\<close> on anything else.\<close>

fun py_contains :: "string \<Rightarrow> json \<Rightarrow> error + bool" where
  "py_contains s (JStr t) = Inr (sublist s t)"
| "py_contains s (JArr xs) = Inr (JStr s \<in> set xs)"
| "py_contains s (JObj kvs) = Inr (s \<in> fst ` set kvs)"
| "py_contains s _ = Inl TypeError"

section \<open>Resource-requirement inference (add_requires_info_to_jsons, lines 122-166)\<close>

text \<open>
  \<open>required_resources\<close> is a Python set of strings. It is modelled as a list without
  duplicates in order of first insertion; Python iterates a set in an unspecified
  order, and nothing proved below depends on the order chosen here.
\<close>

definition set_add :: "string \<Rightarrow> string list \<Rightarrow> string list" where
  "set_add x rr = (if x \<in> set rr then rr else rr @ [x])"

text \<open>The \<open>if/elif\<close> chain on a lower-cased type; the source has it once for an input
  (lines 138-148) and once more, identical, for the pass itself (lines 157-166).\<close>

definition add_type_resource :: "string \<Rightarrow> string list \<Rightarrow> string list" where
  "add_type_resource t rr =
     (if t = ''image'' \<or> t = ''buffer'' then set_add ''imagebuf'' rr
      else if t = ''sound'' then set_add ''soundbuf'' rr
      else if t = ''common'' then set_add ''library'' rr
      else if t = ''cubemap'' then set_add ''cubemap'' rr
      else if t \<noteq> [] then set_add (t @ ''buf'') rr
      else rr)"

definition input_resources :: "json \<Rightarrow> string list \<Rightarrow> error + string list" where
  "input_resources inp rr =
     bind (py_get inp ''type'' (JStr [])) (\<lambda>tv.
     bind (py_lower tv) (\<lambda>input_type.
     bind (py_get inp ''sampler'' (JObj [])) (\<lambda>sampler_info.
     let rr1 = add_type_resource input_type rr in
     bind (py_get inp ''filepath'' (JStr [])) (\<lambda>filepath.
     bind (py_contains ''/media/'' filepath) (\<lambda>in_media.
       if in_media then Inr (set_add ''texture'' rr1)
       else bind (py_lower filepath) (\<lambda>fl.
         if sublist ''cubemap'' fl then Inr (set_add ''texture'' rr1) else Inr rr1))))))"

fun inputs_loop :: "json list \<Rightarrow> string list \<Rightarrow> error + string list" where
  "inputs_loop [] rr = Inr rr"
| "inputs_loop (inp # inps) rr = bind (input_resources inp rr) (inputs_loop inps)"

definition pass_resources :: "json \<Rightarrow> string list \<Rightarrow> error + string list" where
  "pass_resources pass_info rr =
     bind (py_get pass_info ''inputs'' (JArr [])) (\<lambda>inputs.
     bind (py_iter inputs) (\<lambda>inps.
     bind (inputs_loop inps rr) (\<lambda>rr1.
     bind (py_get pass_info ''type'' (JStr [])) (\<lambda>tv.
     bind (py_lower tv) (\<lambda>pass_type.
       Inr (add_type_resource pass_type rr1))))))"

fun passes_loop :: "json list \<Rightarrow> string list \<Rightarrow> error + string list" where
  "passes_loop [] rr = Inr rr"
| "passes_loop (p # ps) rr = bind (pass_resources p rr) (passes_loop ps)"

text \<open>The whole inference over \<open>data['renderpass']\<close>, starting from the empty set.\<close>

definition required_resources :: "json \<Rightarrow> error + string list" where
  "required_resources renderpass = bind (py_iter renderpass) (\<lambda>ps. passes_loop ps [])"

section \<open>The file system and the cache file\<close>

text \<open>
  A path either names nothing (\<open>None\<close>: \<open>open\<close> raises \<open>FileNotFoundError\<close>), or a
  file that \<open>json.load\<close> rejects (\<open>JSONDecodeError\<close>; the source treats
  \<open>UnicodeDecodeError\<close> the same way everywhere), or something that exists and cannot
  be opened for reading (a directory, a file without permission: an \<open>OSError\<close>), or a
  document. Writing a document with \<open>json.dump\<close> and loading it again gives the same
  value; corpus files that exist are taken to be writable, and the corpus directory
  to exist.
\<close>

datatype disk_file = Unparseable | Unreadable | Doc json

definition read_json :: "(string \<Rightarrow> disk_file option) \<Rightarrow> string \<Rightarrow> error + json" where
  "read_json fs path =
     (case fs path of
        None \<Rightarrow> Inl FileNotFoundError
      | Some Unparseable \<Rightarrow> Inl JSONDecodeError
      | Some Unreadable \<Rightarrow> Inl OSError
      | Some (Doc data) \<Rightarrow> Inr data)"

text \<open>A text file of an archive, as the iteration \<open>for line in f\<close> delivers it.\<close>

datatype text_file = NotRegular | UnreadableText | Lines "string list"

text \<open>One directory of \<open>shader_dirs\<close>: its \<open>search_results\<close> subdirectory (\<open>None\<close> when
  there is none), listed in \<open>os.listdir\<close> order, and its \<open>requires_<type>.txt\<close> files
  by type.\<close>

record archive =
  search_results :: "(string \<times> text_file) list option"
  requires_txt :: "(string \<times> text_file) list"

text \<open>An entry of the shader index: the dict built at lines 249-255. Every field but
  the path is whatever JSON value \<open>info.get\<close> returned. The index is a dict keyed by
  shader id, which is again any hashable JSON value.\<close>

record shader_entry =
  e_filepath :: string
  e_name :: json
  e_username :: json
  e_description :: json
  e_tags :: json

type_synonym tag_mappings = "(string \<times> string list) list"
type_synonym shader_index_t = "(json \<times> shader_entry) list"

text \<open>The pickled dict of the cache file, with its two optional keys. A cache file
  that unpickles is taken to hold such a dict, as every write of this program does.\<close>

record cache_data =
  cd_tag_cache :: "tag_mappings option"
  cd_shader_index :: "shader_index_t option"

datatype cache_file = NoCache | CorruptCache | Cache cache_data

definition empty_cache_data :: cache_data where
  "empty_cache_data = \<lparr>cd_tag_cache = None, cd_shader_index = None\<rparr>"

record world =
  json_listing :: "string list"
  files :: "string \<Rightarrow> disk_file option"
  cache :: cache_file
  cache_writable :: bool
  archives :: "archive list"

record searcher =
  json_dir :: string
  requires_cache :: "(string \<times> string list) list"
  tag_cache :: tag_mappings
  shader_index :: shader_index_t

definition new_searcher :: "string \<Rightarrow> searcher" where
  "new_searcher jd = \<lparr>json_dir = jd, requires_cache = [], tag_cache = [], shader_index = []\<rparr>"

text \<open>\<open>pickle.dump\<close> into the cache file inside \<open>try/except\<close>: a failure to open the
  file for writing leaves it as it was. A file that was opened is written whole: the
  data are taken to be shallow enough for \<open>pickle.dump\<close> not to raise half-way, which
  would leave the file truncated.\<close>

definition write_cache :: "cache_data \<Rightarrow> world \<Rightarrow> world" where
  "write_cache cd w = (if cache_writable w then w\<lparr>cache := Cache cd\<rparr> else w)"

subsection \<open>Strings and paths\<close>

text \<open>\<open>str.strip()\<close> removes white space from both ends: the 29 code points for which
  \<open>str.isspace\<close> holds in Python 3, here in their UTF-8 encoding.\<close>

definition space_codes :: "string list" where
  "space_codes =
     [[CHR 0x09], [CHR 0x0A], [CHR 0x0B], [CHR 0x0C], [CHR 0x0D],
      [CHR 0x1C], [CHR 0x1D], [CHR 0x1E], [CHR 0x1F], [CHR 0x20],
      [CHR 0xC2, CHR 0x85], [CHR 0xC2, CHR 0xA0], [CHR 0xE1, CHR 0x9A, CHR 0x80],
      [CHR 0xE2, CHR 0x80, CHR 0x80], [CHR 0xE2, CHR 0x80, CHR 0x81],
      [CHR 0xE2, CHR 0x80, CHR 0x82], [CHR 0xE2, CHR 0x80, CHR 0x83],
      [CHR 0xE2, CHR 0x80, CHR 0x84], [CHR 0xE2, CHR 0x80, CHR 0x85],
      [CHR 0xE2, CHR 0x80, CHR 0x86], [CHR 0xE2, CHR 0x80, CHR 0x87],
      [CHR 0xE2, CHR 0x80, CHR 0x88], [CHR 0xE2, CHR 0x80, CHR 0x89],
      [CHR 0xE2, CHR 0x80, CHR 0x8A], [CHR 0xE2, CHR 0x80, CHR 0xA8],
      [CHR 0xE2, CHR 0x80, CHR 0xA9], [CHR 0xE2, CHR 0x80, CHR 0xAF],
      [CHR 0xE2, CHR 0x81, CHR 0x9F], [CHR 0xE3, CHR 0x80, CHR 0x80]]"

text \<open>The leading characters of a string are dropped while they are among the given
  codes (of one, two or three bytes).\<close>

function strip_left :: "string list \<Rightarrow> string \<Rightarrow> string" where
  "strip_left codes [] = []"
| "strip_left codes (c # cs) =
     (if [c] \<in> set codes then strip_left codes cs
      else if take 2 (c # cs) \<in> set codes then strip_left codes (drop 1 cs)
      else if take 3 (c # cs) \<in> set codes then strip_left codes (drop 2 cs)
      else c # cs)"
  by pat_completeness auto
termination
  by (relation "measure (\<lambda>p. length (snd p))") auto

definition strip :: "string \<Rightarrow> string" where
  "strip s = rev (strip_left (map rev space_codes) (rev (strip_left space_codes s)))"

text \<open>\<open>line.split('/')[-1]\<close> and \<open>os.path.basename\<close>: what follows the last slash.\<close>

definition last_segment :: "string \<Rightarrow> string" where
  "last_segment s = rev (takeWhile (\<lambda>c. c \<noteq> CHR ''/'') (rev s))"

definition basename :: "string \<Rightarrow> string" where
  "basename p = last_segment p"

text \<open>\<open>os.path.join(a, b)\<close> on POSIX.\<close>

definition path_join :: "string \<Rightarrow> string \<Rightarrow> string" where
  "path_join a b =
     (if prefix ''/'' b then b
      else if a = [] \<or> suffix ''/'' a then a @ b
      else a @ ''/'' @ b)"

text \<open>\<open>s.replace('.json', '')\<close>: every occurrence goes, scanning from the left.\<close>

function replace_json :: "string \<Rightarrow> string" where
  "replace_json [] = []"
| "replace_json (c # cs) =
     (if prefix ''.json'' (c # cs) then replace_json (drop 4 cs) else c # replace_json cs)"
  by pat_completeness auto
termination
  by (relation "measure length") auto

text \<open>\<open>glob.glob(os.path.join(json_dir, "*.json"))\<close>: the names that end in \<open>.json\<close>
  and do not start with a dot, joined to the directory.\<close>

definition glob_json :: "string \<Rightarrow> string list \<Rightarrow> string list" where
  "glob_json jd names =
     map (path_join jd) (filter (\<lambda>n. suffix ''.json'' n \<and> \<not> prefix ''.'' n) names)"

section \<open>build_tag_mappings\<close>

text \<open>A tag's id set is a list without duplicates; \<open>tag_mappings[tag_name] = set(ids)\<close>
  replaces an earlier set of the same name.\<close>

fun read_tag_files :: "(string \<times> text_file) list \<Rightarrow> tag_mappings \<Rightarrow> tag_mappings" where
  "read_tag_files [] tm = tm"
| "read_tag_files ((tag_name, f) # rest) tm =
     read_tag_files rest
       (case f of
          Lines ls \<Rightarrow> AList.update tag_name (remdups (filter (\<lambda>l. l \<noteq> []) (map strip ls))) tm
        | _ \<Rightarrow> tm)"

fun scan_tag_dirs :: "archive list \<Rightarrow> tag_mappings \<Rightarrow> tag_mappings" where
  "scan_tag_dirs [] tm = tm"
| "scan_tag_dirs (a # as) tm =
     scan_tag_dirs as (case search_results a of None \<Rightarrow> tm | Some fs \<Rightarrow> read_tag_files fs tm)"

text \<open>Lines 59-71: the cache file is loaded again so that only its \<open>tag_cache\<close> key is
  replaced; when that load raises, nothing is written.\<close>

definition save_tag_cache :: "tag_mappings \<Rightarrow> world \<Rightarrow> world" where
  "save_tag_cache tm w =
     (case cache w of
        NoCache \<Rightarrow> write_cache (empty_cache_data\<lparr>cd_tag_cache := Some tm\<rparr>) w
      | CorruptCache \<Rightarrow> w
      | Cache cd \<Rightarrow> write_cache (cd\<lparr>cd_tag_cache := Some tm\<rparr>) w)"

definition cached_tag_cache :: "world \<Rightarrow> tag_mappings option" where
  "cached_tag_cache w = (case cache w of Cache cd \<Rightarrow> cd_tag_cache cd | _ \<Rightarrow> None)"

definition build_tag_mappings :: "searcher \<Rightarrow> world \<Rightarrow> tag_mappings \<times> searcher \<times> world" where
  "build_tag_mappings s w =
     (case cached_tag_cache w of
        Some tc \<Rightarrow> (tc, s\<lparr>tag_cache := tc\<rparr>, w)
      | None \<Rightarrow>
          let tag_mappings = scan_tag_dirs (archives w) []
          in (tag_mappings, s\<lparr>tag_cache := tag_mappings\<rparr>, save_tag_cache tag_mappings w))"

section \<open>load_requires_file\<close>

fun read_requires_lines :: "string list \<Rightarrow> string list \<Rightarrow> string list" where
  "read_requires_lines [] acc = acc"
| "read_requires_lines (l # ls) acc =
     (let line = strip l in
      read_requires_lines ls
        (if line \<noteq> [] \<and> \<not> prefix ''---'' line
         then set_add (if CHR ''/'' \<in> set line then last_segment line else line) acc
         else acc))"

fun scan_requires :: "string \<Rightarrow> archive list \<Rightarrow> string list \<Rightarrow> string list" where
  "scan_requires req_type [] acc = acc"
| "scan_requires req_type (a # as) acc =
     scan_requires req_type as
       (case map_of (requires_txt a) req_type of
          Some (Lines ls) \<Rightarrow> read_requires_lines ls acc
        | _ \<Rightarrow> acc)"

definition load_requires_file :: "string \<Rightarrow> searcher \<Rightarrow> world \<Rightarrow> string list \<times> searcher" where
  "load_requires_file req_type s w =
     (case map_of (requires_cache s) req_type of
        Some ids \<Rightarrow> (ids, s)
      | None \<Rightarrow>
          let requires_set = scan_requires req_type (archives w) []
          in (requires_set,
              s\<lparr>requires_cache := AList.update req_type requires_set (requires_cache s)\<rparr>))"

section \<open>load_all_json_metadata\<close>

text \<open>A list or a dict is unhashable and cannot be a key of the index.\<close>

definition hashable :: "json \<Rightarrow> bool" where
  "hashable v = (case v of JArr xs \<Rightarrow> False | JObj kvs \<Rightarrow> False | _ \<Rightarrow> True)"

text \<open>Lines 244-258, the body of the \<open>try\<close> once the document is loaded.\<close>

definition index_document :: "string \<Rightarrow> json \<Rightarrow> shader_index_t \<Rightarrow> error + shader_index_t" where
  "index_document filepath data idx =
     (case data of
        JObj kvs \<Rightarrow>
          (case map_of kvs ''info'' of
             None \<Rightarrow> Inr idx
           | Some info \<Rightarrow>
               bind (py_get info ''id'' (JStr (replace_json (basename filepath)))) (\<lambda>shader_id.
               bind (py_get info ''name'' (JStr [])) (\<lambda>name.
               bind (py_get info ''username'' (JStr [])) (\<lambda>username.
               bind (py_get info ''description'' (JStr [])) (\<lambda>description.
               bind (py_get info ''tags'' (JArr [])) (\<lambda>tags.
                 if hashable shader_id
                 then Inr (AList.update shader_id
                             \<lparr>e_filepath = filepath, e_name = name, e_username = username,
                              e_description = description, e_tags = tags\<rparr> idx)
                 else Inl TypeError))))))
      | _ \<Rightarrow> Inr idx)"

text \<open>Line 259: the only exceptions the scan survives.\<close>

definition caught_by_scan :: "error \<Rightarrow> bool" where
  "caught_by_scan e = (e = JSONDecodeError \<or> e = UnicodeDecodeError \<or> e = FileNotFoundError)"

fun index_files ::
  "(string \<Rightarrow> disk_file option) \<Rightarrow> string list \<Rightarrow> shader_index_t \<Rightarrow> error + shader_index_t" where
  "index_files fs [] idx = Inr idx"
| "index_files fs (filepath # rest) idx =
     (case bind (read_json fs filepath) (\<lambda>data. index_document filepath data idx) of
        Inl e \<Rightarrow> if caught_by_scan e then index_files fs rest idx else Inl e
      | Inr idx' \<Rightarrow> index_files fs rest idx')"

text \<open>Lines 221-229: \<open>cache_data\<close> is the loaded dict only when no rebuild is forced and
  the file unpickles; otherwise it stays empty.\<close>

definition loaded_cache_data :: "bool \<Rightarrow> world \<Rightarrow> cache_data" where
  "loaded_cache_data force_rebuild w =
     (if force_rebuild then empty_cache_data
      else case cache w of Cache cd \<Rightarrow> cd | _ \<Rightarrow> empty_cache_data)"

definition load_all_json_metadata ::
  "bool \<Rightarrow> searcher \<Rightarrow> world \<Rightarrow> error + (shader_index_t \<times> world)" where
  "load_all_json_metadata force_rebuild s w =
     (let cache_data = loaded_cache_data force_rebuild w in
      case cd_shader_index cache_data of
        Some idx \<Rightarrow> Inr (idx, w)
      | None \<Rightarrow>
          bind (index_files (files w) (glob_json (json_dir s) (json_listing w)) [])
            (\<lambda>idx. Inr (idx, write_cache (cache_data\<lparr>cd_shader_index := Some idx\<rparr>) w)))"

section \<open>search\<close>

text \<open>The sixteen \<open>requires_*\<close> parameters, in the order of their \<open>if\<close> blocks.\<close>

datatype capability =
    Buffer | Cubemap | Image | Imagebuf | Keyboard | Library | Mic | Music
  | Musicstream | Sound | Soundbuf | Texture | Video | Volume | Webcam | Common

definition capabilities :: "capability list" where
  "capabilities = [Buffer, Cubemap, Image, Imagebuf, Keyboard, Library, Mic, Music,
                   Musicstream, Sound, Soundbuf, Texture, Video, Volume, Webcam, Common]"

text \<open>The argument of \<open>load_requires_file\<close> in each block.\<close>

fun requires_file_type :: "capability \<Rightarrow> string" where
  "requires_file_type Buffer = ''buffer''"
| "requires_file_type Cubemap = ''cubemap''"
| "requires_file_type Image = ''image''"
| "requires_file_type Imagebuf = ''imagebuf''"
| "requires_file_type Keyboard = ''keyboard''"
| "requires_file_type Library = ''library''"
| "requires_file_type Mic = ''mic''"
| "requires_file_type Music = ''music''"
| "requires_file_type Musicstream = ''musicstream''"
| "requires_file_type Sound = ''sound''"
| "requires_file_type Soundbuf = ''soundbuf''"
| "requires_file_type Texture = ''texture''"
| "requires_file_type Video = ''video''"
| "requires_file_type Volume = ''volume''"
| "requires_file_type Webcam = ''webcam''"
| "requires_file_type Common = ''common''"

text \<open>The string looked for in \<open>req_list\<close> in each block.\<close>

fun required_string :: "capability \<Rightarrow> string" where
  "required_string Buffer = ''imagebuf''"
| "required_string Cubemap = ''cubemap''"
| "required_string Image = ''imagebuf''"
| "required_string Imagebuf = ''imagebuf''"
| "required_string Keyboard = ''keyboardbuf''"
| "required_string Library = ''library''"
| "required_string Mic = ''micbuf''"
| "required_string Music = ''musicbuf''"
| "required_string Musicstream = ''musicstreambuf''"
| "required_string Sound = ''soundbuf''"
| "required_string Soundbuf = ''soundbuf''"
| "required_string Texture = ''texturebuf''"
| "required_string Video = ''videobuf''"
| "required_string Volume = ''volumebuf''"
| "required_string Webcam = ''webcambuf''"
| "required_string Common = ''library''"

record query =
  q_tags :: "string option"
  q_name :: "string option"
  q_author :: "string option"
  q_description :: "string option"
  q_requires :: "capability \<Rightarrow> bool"
  force_rebuild :: bool

record result =
  r_filepath :: string
  r_id :: json
  r_name :: json
  r_username :: json
  r_description :: json
  r_tags :: json

text \<open>\<open>v[:]\<close>: a copy of a list or a string; nothing else can be sliced.\<close>

fun py_slice_all :: "json \<Rightarrow> error + json" where
  "py_slice_all (JArr xs) = Inr (JArr xs)"
| "py_slice_all (JStr s) = Inr (JStr s)"
| "py_slice_all _ = Inl TypeError"

text \<open>\<open>shader_id in ids\<close> for a set of strings.\<close>

definition id_in :: "json \<Rightarrow> string list \<Rightarrow> bool" where
  "id_in shader_id ids = (case shader_id of JStr i \<Rightarrow> i \<in> set ids | _ \<Rightarrow> False)"

text \<open>Lines 298-302. \<open>all_tags\<close> is a list or a string after the slice; a string has
  no \<open>append\<close>.\<close>

fun merge_cached_tags :: "json \<Rightarrow> string \<Rightarrow> tag_mappings \<Rightarrow> json \<Rightarrow> error + json" where
  "merge_cached_tags shader_id tag_lower [] all_tags = Inr all_tags"
| "merge_cached_tags shader_id tag_lower ((cached_tag, shader_ids) # rest) all_tags =
     (if id_in shader_id shader_ids \<and> prefix tag_lower (lower cached_tag)
      then bind (py_contains cached_tag all_tags) (\<lambda>present.
             if present then merge_cached_tags shader_id tag_lower rest all_tags
             else case all_tags of
                    JArr xs \<Rightarrow>
                      merge_cached_tags shader_id tag_lower rest (JArr (xs @ [JStr cached_tag]))
                  | _ \<Rightarrow> Inl AttributeError)
      else merge_cached_tags shader_id tag_lower rest all_tags)"

text \<open>Line 304: \<open>any\<close> stops at the first tag that matches.\<close>

fun any_tag_matches :: "string \<Rightarrow> json list \<Rightarrow> error + bool" where
  "any_tag_matches tag_lower [] = Inr False"
| "any_tag_matches tag_lower (t # ts) =
     bind (py_lower t) (\<lambda>tl. if sublist tag_lower tl then Inr True else any_tag_matches tag_lower ts)"

definition tags_match :: "tag_mappings \<Rightarrow> string \<Rightarrow> json \<Rightarrow> shader_entry \<Rightarrow> error + bool" where
  "tags_match tc tag_lower shader_id data =
     bind (py_slice_all (e_tags data)) (\<lambda>all_tags.
     bind (merge_cached_tags shader_id tag_lower tc all_tags) (\<lambda>all_tags'.
     bind (py_iter all_tags') (any_tag_matches tag_lower)))"

text \<open>Lines 312, 320, 328: \<open>x_lower in data[field].lower()\<close>.\<close>

definition field_match :: "(shader_entry \<Rightarrow> json) \<Rightarrow> string \<Rightarrow> json \<Rightarrow> shader_entry \<Rightarrow> error + bool" where
  "field_match field x_lower shader_id data =
     bind (py_lower (field data)) (\<lambda>fl. Inr (sublist x_lower fl))"

text \<open>One loop \<open>for shader_id, data in self.shader_index.items()\<close> that collects
  \<open>temp_set\<close>. A Python set of ids is a list of ids here, in index order.\<close>

fun collect :: "(json \<Rightarrow> shader_entry \<Rightarrow> error + bool) \<Rightarrow> shader_index_t \<Rightarrow> error + json list" where
  "collect P [] = Inr []"
| "collect P ((shader_id, data) # rest) =
     bind (P shader_id data) (\<lambda>b.
     bind (collect P rest) (\<lambda>temp_set.
       Inr (if b then shader_id # temp_set else temp_set)))"

text \<open>One text filter: skipped when its parameter is \<open>None\<close> or empty, otherwise
  \<open>matching_shaders &= temp_set\<close>.\<close>

definition text_filter ::
  "string option \<Rightarrow> (string \<Rightarrow> json \<Rightarrow> shader_entry \<Rightarrow> error + bool) \<Rightarrow> shader_index_t \<Rightarrow>
   json list \<Rightarrow> error + json list" where
  "text_filter param P idx matching_shaders =
     (case param of
        None \<Rightarrow> Inr matching_shaders
      | Some x \<Rightarrow>
          if x = [] then Inr matching_shaders
          else bind (collect (P (lower x)) idx) (\<lambda>temp_set.
                 Inr (filter (\<lambda>i. i \<in> set temp_set) matching_shaders)))"

text \<open>Lines 342-350: the \<open>requires\<close> list read again from the document.\<close>

definition fresh_req_list :: "(string \<Rightarrow> disk_file option) \<Rightarrow> string \<Rightarrow> json" where
  "fresh_req_list fs filepath =
     (case read_json fs filepath of
        Inr (JObj kvs) \<Rightarrow>
          (case map_of kvs ''info'' of
             Some info \<Rightarrow> (case py_get info ''requires'' (JArr []) of Inr r \<Rightarrow> r | Inl e \<Rightarrow> JArr [])
           | None \<Rightarrow> JArr [])
      | _ \<Rightarrow> JArr [])"

text \<open>Lines 355-450: the blocks of the requested capabilities, in order; each appends
  \<open>in_orig or has_req\<close> to \<open>conditions_met\<close>.\<close>

fun check_requirements ::
  "(capability \<Rightarrow> bool) \<Rightarrow> json \<Rightarrow> json \<Rightarrow> world \<Rightarrow> capability list \<Rightarrow> searcher \<Rightarrow>
   error + (bool list \<times> searcher)" where
  "check_requirements req shader_id req_list w [] s = Inr ([], s)"
| "check_requirements req shader_id req_list w (c # cs) s =
     (if req c
      then (case load_requires_file (requires_file_type c) s w of (ids, s1) \<Rightarrow>
              let in_orig = id_in shader_id ids in
              bind (py_contains (required_string c) req_list) (\<lambda>has_req.
              bind (check_requirements req shader_id req_list w cs s1) (\<lambda>(conditions_met, s2).
                Inr ((in_orig \<or> has_req) # conditions_met, s2))))
      else check_requirements req shader_id req_list w cs s)"

text \<open>Lines 337-455: the loop over \<open>matching_shaders\<close>. \<open>any_requirement_checked\<close> is
  true exactly when \<open>conditions_met\<close> is not empty.\<close>

fun requires_loop ::
  "(capability \<Rightarrow> bool) \<Rightarrow> shader_index_t \<Rightarrow> world \<Rightarrow> json list \<Rightarrow> searcher \<Rightarrow>
   error + (json list \<times> searcher)" where
  "requires_loop req idx w [] s = Inr ([], s)"
| "requires_loop req idx w (shader_id # rest) s =
     (case map_of idx shader_id of
        None \<Rightarrow> requires_loop req idx w rest s
      | Some shader_info \<Rightarrow>
          let req_list = fresh_req_list (files w) (e_filepath shader_info) in
          bind (check_requirements req shader_id req_list w capabilities s) (\<lambda>(conditions_met, s1).
          bind (requires_loop req idx w rest s1) (\<lambda>(temp_matching, s2).
            Inr (if (conditions_met \<noteq> [] \<and> list_all (\<lambda>b. b) conditions_met) \<or> conditions_met = []
                 then shader_id # temp_matching else temp_matching, s2))))"

definition requires_filter ::
  "(capability \<Rightarrow> bool) \<Rightarrow> shader_index_t \<Rightarrow> world \<Rightarrow> json list \<Rightarrow> searcher \<Rightarrow>
   error + (json list \<times> searcher)" where
  "requires_filter req idx w matching_shaders s =
     (if list_ex req capabilities then requires_loop req idx w matching_shaders s
      else Inr (matching_shaders, s))"

text \<open>Lines 457-467.\<close>

fun prepare_results :: "shader_index_t \<Rightarrow> json list \<Rightarrow> error + result list" where
  "prepare_results idx [] = Inr []"
| "prepare_results idx (shader_id # rest) =
     (case map_of idx shader_id of
        None \<Rightarrow> Inl KeyError
      | Some data \<Rightarrow>
          bind (prepare_results idx rest) (\<lambda>results.
            Inr (\<lparr>r_filepath = e_filepath data, r_id = shader_id, r_name = e_name data,
                  r_username = e_username data, r_description = e_description data,
                  r_tags = e_tags data\<rparr> # results)))"

text \<open>Lines 282-284: the index is loaded, and the tag mappings only when no rebuild
  is requested.\<close>

definition load_for_search :: "bool \<Rightarrow> searcher \<Rightarrow> world \<Rightarrow> error + (searcher \<times> world)" where
  "load_for_search rebuild s w =
     bind (load_all_json_metadata rebuild s w) (\<lambda>(idx, w1).
       let s1 = s\<lparr>shader_index := idx\<rparr> in
       if \<not> rebuild
       then (case build_tag_mappings s1 w1 of (tm, s2, w2) \<Rightarrow> Inr (s2, w2))
       else Inr (s1, w1))"

text \<open>Lines 288-330: the four text filters over the loaded index.\<close>

definition text_filters :: "query \<Rightarrow> searcher \<Rightarrow> error + json list" where
  "text_filters q s =
     bind (text_filter (q_tags q) (tags_match (tag_cache s)) (shader_index s)
             (map fst (shader_index s))) (\<lambda>m1.
     bind (text_filter (q_name q) (field_match e_name) (shader_index s) m1) (\<lambda>m2.
     bind (text_filter (q_author q) (field_match e_username) (shader_index s) m2) (\<lambda>m3.
     text_filter (q_description q) (field_match e_description) (shader_index s) m3)))"

definition search :: "query \<Rightarrow> searcher \<Rightarrow> world \<Rightarrow> error + (result list \<times> searcher \<times> world)" where
  "search q s w =
     bind (load_for_search (force_rebuild q) s w) (\<lambda>(s1, w1).
     bind (text_filters q s1) (\<lambda>matching_shaders.
     bind (requires_filter (q_requires q) (shader_index s1) w1 matching_shaders s1)
       (\<lambda>(matching_shaders', s2).
     bind (prepare_results (shader_index s2) matching_shaders') (\<lambda>results.
       Inr (results, s2, w1)))))"


section \<open>add_requires_info_to_jsons\<close>

text \<open>
  Both passes load a document, change it in memory and write it back only on some
  paths; every exception is caught and leaves the file as it was. A step on a loaded
  document returns \<open>Some\<close> of the document to write, or \<open>None\<close> when nothing is written.
  Python inserts a new key at the end of a dict and keeps the place of an old one, as
  \<open>AList.update\<close> does.
\<close>

text \<open>Lines 91-104. Indexing or assigning \<open>info['tags']\<close> raises \<open>TypeError\<close> unless
  \<open>info\<close> is a dict; \<open>append\<close> exists only on a list.\<close>

definition add_tag :: "string \<Rightarrow> json \<Rightarrow> error + json option" where
  "add_tag tag data =
     (case data of
        JObj kvs \<Rightarrow>
          (case map_of kvs ''info'' of
             None \<Rightarrow> Inr None
           | Some (JObj info) \<Rightarrow>
               (let tags = (case map_of info ''tags'' of None \<Rightarrow> JArr [] | Some t \<Rightarrow> t) in
                bind (py_contains tag tags) (\<lambda>present.
                  if present then Inr None
                  else case tags of
                         JArr ts \<Rightarrow>
                           Inr (Some (JObj (AList.update ''info''
                                  (JObj (AList.update ''tags'' (JArr (ts @ [JStr tag])) info)) kvs)))
                       | _ \<Rightarrow> Inl AttributeError))
           | Some other \<Rightarrow> Inl TypeError)
      | _ \<Rightarrow> Inr None)"

text \<open>The outcome of both passes: the two counters, and the paths written by each
  pass in order (one entry for each \<open>json.dump\<close>).\<close>

record pass_state =
  updated_count :: nat
  written :: "string list"
  disk :: "string \<Rightarrow> disk_file option"

text \<open>Lines 84-106 for one shader id of one tag.\<close>

definition tag_step :: "string \<Rightarrow> string \<Rightarrow> string \<Rightarrow> pass_state \<Rightarrow> pass_state" where
  "tag_step jd tag shader_id st =
     (let json_file_path = path_join jd (shader_id @ ''.json'') in
      if disk st json_file_path \<noteq> None
      then (case bind (read_json (disk st) json_file_path) (add_tag tag) of
              Inr (Some data') \<Rightarrow>
                \<lparr>updated_count = updated_count st + 1,
                 written = written st @ [json_file_path],
                 disk = (disk st)(json_file_path \<mapsto> Doc data')\<rparr>
            | _ \<Rightarrow> st)
      else st)"

fun tag_ids_loop :: "string \<Rightarrow> string \<Rightarrow> string list \<Rightarrow> pass_state \<Rightarrow> pass_state" where
  "tag_ids_loop jd tag [] st = st"
| "tag_ids_loop jd tag (shader_id # rest) st = tag_ids_loop jd tag rest (tag_step jd tag shader_id st)"

fun tag_pass :: "string \<Rightarrow> tag_mappings \<Rightarrow> pass_state \<Rightarrow> pass_state" where
  "tag_pass jd [] st = st"
| "tag_pass jd ((tag, shader_ids) # rest) st = tag_pass jd rest (tag_ids_loop jd tag shader_ids st)"

text \<open>Lines 174-176.\<close>

fun append_missing :: "string list \<Rightarrow> json list \<Rightarrow> json list" where
  "append_missing [] reqs = reqs"
| "append_missing (req # rest) reqs =
     append_missing rest (if JStr req \<in> set reqs then reqs else reqs @ [JStr req])"

text \<open>The same loop when \<open>info['requires']\<close> is not a list: the first resource that is
  not "in" it reaches \<open>append\<close>, which only a list has.\<close>

fun all_present :: "string list \<Rightarrow> json \<Rightarrow> error + unit" where
  "all_present [] requires = Inr ()"
| "all_present (req # rest) requires =
     bind (py_contains req requires) (\<lambda>present.
       if present then all_present rest requires else Inl AttributeError)"

text \<open>Lines 120-182 on a loaded document. \<open>len\<close> of a number, a boolean or \<open>None\<close>
  raises \<open>TypeError\<close>.\<close>

definition add_requires :: "json \<Rightarrow> error + json option" where
  "add_requires data =
     (case data of
        JObj kvs \<Rightarrow>
          (case (map_of kvs ''info'', map_of kvs ''renderpass'') of
             (Some info, Some renderpass) \<Rightarrow>
               bind (required_resources renderpass) (\<lambda>required.
                 case info of
                   JObj ikvs \<Rightarrow>
                     (case (case map_of ikvs ''requires'' of None \<Rightarrow> JArr [] | Some r \<Rightarrow> r) of
                        JArr reqs \<Rightarrow>
                          (let reqs' = append_missing required reqs in
                           if length reqs' > length reqs
                           then Inr (Some (JObj (AList.update ''info''
                                  (JObj (AList.update ''requires'' (JArr reqs') ikvs)) kvs)))
                           else Inr None)
                      | JStr t \<Rightarrow> bind (all_present required (JStr t)) (\<lambda>u. Inr None)
                      | JObj d \<Rightarrow> bind (all_present required (JObj d)) (\<lambda>u. Inr None)
                      | _ \<Rightarrow> Inl TypeError)
                 | _ \<Rightarrow> Inl TypeError)
           | _ \<Rightarrow> Inr None)
      | _ \<Rightarrow> Inr None)"

text \<open>Lines 111-185 for one name of the listing.\<close>

definition requires_step :: "string \<Rightarrow> string \<Rightarrow> pass_state \<Rightarrow> pass_state" where
  "requires_step jd filename st =
     (if suffix ''.json'' filename
      then (let json_file_path = path_join jd filename in
            case bind (read_json (disk st) json_file_path) add_requires of
              Inr (Some data') \<Rightarrow>
                \<lparr>updated_count = updated_count st + 1,
                 written = written st @ [json_file_path],
                 disk = (disk st)(json_file_path \<mapsto> Doc data')\<rparr>
            | _ \<Rightarrow> st)
      else st)"

fun requires_pass :: "string \<Rightarrow> string list \<Rightarrow> pass_state \<Rightarrow> pass_state" where
  "requires_pass jd [] st = st"
| "requires_pass jd (filename # rest) st = requires_pass jd rest (requires_step jd filename st)"

definition start_pass :: "(string \<Rightarrow> disk_file option) \<Rightarrow> pass_state" where
  "start_pass fs = \<lparr>updated_count = 0, written = [], disk = fs\<rparr>"

text \<open>The whole method: the pair of counters it returns, with the state of each pass
  at its end.\<close>

record mutation =
  tag_updated_count :: nat
  requires_updated_count :: nat
  tag_pass_end :: pass_state
  requires_pass_end :: pass_state

definition add_requires_info_to_jsons :: "searcher \<Rightarrow> world \<Rightarrow> mutation \<times> searcher \<times> world" where
  "add_requires_info_to_jsons s w =
     (case build_tag_mappings s w of (tag_mappings, s1, w1) \<Rightarrow>
        let t = tag_pass (json_dir s) tag_mappings (start_pass (files w1));
            r = requires_pass (json_dir s) (json_listing w1) (start_pass (disk t))
        in (\<lparr>tag_updated_count = updated_count t, requires_updated_count = updated_count r,
             tag_pass_end = t, requires_pass_end = r\<rparr>,
            s1, w1\<lparr>files := disk r\<rparr>))"


section \<open>What the specification says, in the terms of the model\<close>

subsection \<open>Render-pass lists and their inferred capabilities\<close>

text \<open>A render-pass list as the specification describes it: every pass and every input
  is a keyed structure, a \<open>type\<close> or \<open>filepath\<close> that is present is a string, and
  \<open>inputs\<close>, when present, is a list of inputs.\<close>

definition optional_string :: "json option \<Rightarrow> bool" where
  "optional_string v = (case v of None \<Rightarrow> True | Some (JStr s) \<Rightarrow> True | _ \<Rightarrow> False)"

definition wf_input :: "json \<Rightarrow> bool" where
  "wf_input inp =
     (case inp of
        JObj kvs \<Rightarrow> optional_string (map_of kvs ''type'') \<and> optional_string (map_of kvs ''filepath'')
      | _ \<Rightarrow> False)"

definition wf_pass :: "json \<Rightarrow> bool" where
  "wf_pass p =
     (case p of
        JObj kvs \<Rightarrow>
          optional_string (map_of kvs ''type'') \<and>
          (case map_of kvs ''inputs'' of
             None \<Rightarrow> True
           | Some (JArr inps) \<Rightarrow> list_all wf_input inps
           | _ \<Rightarrow> False)
      | _ \<Rightarrow> False)"

text \<open>The string in a field, empty when the field is absent; the inputs of a pass.\<close>

definition field_string :: "string \<Rightarrow> json \<Rightarrow> string" where
  "field_string k v =
     (case v of
        JObj kvs \<Rightarrow> (case map_of kvs k of Some (JStr s) \<Rightarrow> s | _ \<Rightarrow> [])
      | _ \<Rightarrow> [])"

definition inputs_of :: "json \<Rightarrow> json list" where
  "inputs_of p =
     (case p of
        JObj kvs \<Rightarrow> (case map_of kvs ''inputs'' of Some (JArr inps) \<Rightarrow> inps | _ \<Rightarrow> [])
      | _ \<Rightarrow> [])"

text \<open>An ASCII string: no byte has its top bit set. On such a string \<open>lower\<close> is
  \<open>str.lower\<close>.\<close>

definition ascii :: "string \<Rightarrow> bool" where
  "ascii s = list_all (\<lambda>c. \<not> digit7 c) s"

text \<open>The types and filepaths of a pass and of its inputs are ASCII.\<close>

definition ascii_input :: "json \<Rightarrow> bool" where
  "ascii_input inp = (ascii (field_string ''type'' inp) \<and> ascii (field_string ''filepath'' inp))"

definition ascii_pass :: "json \<Rightarrow> bool" where
  "ascii_pass p = (ascii (field_string ''type'' p) \<and> list_all ascii_input (inputs_of p))"

text \<open>The mapping rule as the specification words it: the comparison ignores case, and
  any other non-empty type \<open>T\<close> gives \<open>T + "buf"\<close>.\<close>

definition stated_type_capability :: "string \<Rightarrow> string set" where
  "stated_type_capability T =
     (if lower T = ''image'' \<or> lower T = ''buffer'' then {''imagebuf''}
      else if lower T = ''sound'' then {''soundbuf''}
      else if lower T = ''common'' then {''library''}
      else if lower T = ''cubemap'' then {''cubemap''}
      else if T \<noteq> [] then {T @ ''buf''}
      else {})"

text \<open>The same rule with the lower-cased type in the last case.\<close>

definition lowered_type_capability :: "string \<Rightarrow> string set" where
  "lowered_type_capability T =
     (if lower T = ''image'' \<or> lower T = ''buffer'' then {''imagebuf''}
      else if lower T = ''sound'' then {''soundbuf''}
      else if lower T = ''common'' then {''library''}
      else if lower T = ''cubemap'' then {''cubemap''}
      else if T \<noteq> [] then {lower T @ ''buf''}
      else {})"

definition filepath_capability :: "string \<Rightarrow> string set" where
  "filepath_capability fp =
     (if sublist ''/media/'' fp \<or> sublist ''cubemap'' (lower fp) then {''texture''} else {})"

text \<open>The union over all passes and all their inputs, for a given type rule.\<close>

definition capability_union :: "(string \<Rightarrow> string set) \<Rightarrow> json list \<Rightarrow> string set" where
  "capability_union rule ps =
     (\<Union>p \<in> set ps.
        rule (field_string ''type'' p) \<union>
        (\<Union>i \<in> set (inputs_of p).
           rule (field_string ''type'' i) \<union> filepath_capability (field_string ''filepath'' i)))"

text \<open>The inferred set of a render-pass list, or the exception.\<close>

definition inferred_set :: "json \<Rightarrow> error + string set" where
  "inferred_set renderpass = map_sum id set (required_resources renderpass)"

text \<open>Two render-pass lists differ only in the \<open>sampler\<close> fields of their inputs when
  they are equal once those fields are taken out.\<close>

definition without_sampler_input :: "json \<Rightarrow> json" where
  "without_sampler_input inp =
     (case inp of JObj kvs \<Rightarrow> JObj (filter (\<lambda>kv. fst kv \<noteq> ''sampler'') kvs) | _ \<Rightarrow> inp)"

definition without_sampler_inputs :: "json \<Rightarrow> json" where
  "without_sampler_inputs v = (case v of JArr inps \<Rightarrow> JArr (map without_sampler_input inps) | _ \<Rightarrow> v)"

definition without_sampler_pass :: "json \<Rightarrow> json" where
  "without_sampler_pass p =
     (case p of
        JObj kvs \<Rightarrow>
          JObj (map (\<lambda>kv. if fst kv = ''inputs'' then (fst kv, without_sampler_inputs (snd kv)) else kv) kvs)
      | _ \<Rightarrow> p)"

definition without_sampler :: "json \<Rightarrow> json" where
  "without_sampler renderpass =
     (case renderpass of JArr ps \<Rightarrow> JArr (map without_sampler_pass ps) | _ \<Rightarrow> renderpass)"

subsection \<open>Queries\<close>

definition supplied :: "string option \<Rightarrow> bool" where
  "supplied param = (case param of None \<Rightarrow> False | Some x \<Rightarrow> x \<noteq> [])"

definition no_predicates :: "query \<Rightarrow> bool" where
  "no_predicates q =
     (\<not> supplied (q_tags q) \<and> \<not> supplied (q_name q) \<and> \<not> supplied (q_author q) \<and>
      \<not> supplied (q_description q) \<and> \<not> list_ex (q_requires q) capabilities \<and> \<not> force_rebuild q)"

definition empty_query :: query where
  "empty_query =
     \<lparr>q_tags = None, q_name = None, q_author = None, q_description = None,
      q_requires = (\<lambda>c. False), force_rebuild = False\<rparr>"

text \<open>The ids of a search result, or the exception.\<close>

definition result_ids :: "error + (result list \<times> searcher \<times> world) \<Rightarrow> error + json list" where
  "result_ids r = map_sum id (\<lambda>out. map r_id (fst out)) r"


text \<open>The name of a capability: the \<open>X\<close> of its parameter \<open>requires_X\<close> and of its
  association file \<open>requires_X.txt\<close>.\<close>

fun capability_name :: "capability \<Rightarrow> string" where
  "capability_name Buffer = ''buffer''"
| "capability_name Cubemap = ''cubemap''"
| "capability_name Image = ''image''"
| "capability_name Imagebuf = ''imagebuf''"
| "capability_name Keyboard = ''keyboard''"
| "capability_name Library = ''library''"
| "capability_name Mic = ''mic''"
| "capability_name Music = ''music''"
| "capability_name Musicstream = ''musicstream''"
| "capability_name Sound = ''sound''"
| "capability_name Soundbuf = ''soundbuf''"
| "capability_name Texture = ''texture''"
| "capability_name Video = ''video''"
| "capability_name Volume = ''volume''"
| "capability_name Webcam = ''webcam''"
| "capability_name Common = ''common''"

text \<open>The inferred string of a capability, as the specification has it: the mapping
  of the inferencer applied to the name (\<open>image\<close> and \<open>buffer\<close> give \<open>imagebuf\<close>, \<open>sound\<close>
  gives \<open>soundbuf\<close>, \<open>common\<close> gives \<open>library\<close>, \<open>cubemap\<close> stays, any other name is
  followed by \<open>buf\<close>), and the name itself where it already is an inferred string.\<close>

definition inferred_string :: "capability \<Rightarrow> string" where
  "inferred_string c =
     (let n = capability_name c in
      if n = ''image'' \<or> n = ''buffer'' then ''imagebuf''
      else if n = ''sound'' then ''soundbuf''
      else if n = ''common'' then ''library''
      else if n = ''cubemap'' \<or> n = ''imagebuf'' \<or> n = ''soundbuf'' \<or> n = ''library'' then n
      else n @ ''buf'')"

text \<open>The set the Requires-File Loader returns for a capability.\<close>

definition requires_set :: "searcher \<Rightarrow> world \<Rightarrow> capability \<Rightarrow> string list" where
  "requires_set s w c = fst (load_requires_file (capability_name c) s w)"






text \<open>Tags that are a list of strings.\<close>

definition is_string :: "json \<Rightarrow> bool" where
  "is_string v = (case v of JStr s \<Rightarrow> True | _ \<Rightarrow> False)"

definition string_list :: "json \<Rightarrow> bool" where
  "string_list v = (case v of JArr xs \<Rightarrow> list_all is_string xs | _ \<Rightarrow> False)"

subsection \<open>Example corpora\<close>

definition no_archive :: archive where
  "no_archive = \<lparr>search_results = None, requires_txt = []\<rparr>"

definition empty_entry :: "string \<Rightarrow> shader_entry" where
  "empty_entry p =
     \<lparr>e_filepath = p, e_name = JStr [], e_username = JStr [], e_description = JStr [], e_tags = JArr []\<rparr>"

text \<open>One document \<open>{"info": {"name": "Glow Sphere"}}\<close> in \<open>json/a.json\<close>, no cache.\<close>

definition glow_world :: world where
  "glow_world =
     \<lparr>json_listing = [''a.json''],
      files = [''json/a.json'' \<mapsto> Doc (JObj [(''info'', JObj [(''name'', JStr ''Glow Sphere'')])])],
      cache = NoCache, cache_writable = True, archives = [no_archive]\<rparr>"

text \<open>One document \<open>{"info": {}}\<close> in a file named \<open>a.json.json\<close>.\<close>

definition double_extension_world :: world where
  "double_extension_world =
     \<lparr>json_listing = [''a.json.json''],
      files = [''json/a.json.json'' \<mapsto> Doc (JObj [(''info'', JObj [])])],
      cache = NoCache, cache_writable = True, archives = []\<rparr>"

text \<open>A well-formed document beside one whose \<open>info\<close> is a number.\<close>

definition number_info_world :: world where
  "number_info_world =
     \<lparr>json_listing = [''good.json'', ''odd.json''],
      files = [''json/good.json'' \<mapsto> Doc (JObj [(''info'', JObj [])]),
               ''json/odd.json'' \<mapsto> Doc (JObj [(''info'', JNum 5)])],
      cache = NoCache, cache_writable = True, archives = []\<rparr>"

text \<open>Two tag files \<open>2d\<close> and \<open>noise\<close> that both list the shader \<open>x\<close>, whose document
  \<open>{"info": {}}\<close> has no tags yet.\<close>

definition two_tags_world :: world where
  "two_tags_world =
     \<lparr>json_listing = [''x.json''],
      files = [''json/x.json'' \<mapsto> Doc (JObj [(''info'', JObj [])])],
      cache = NoCache, cache_writable = True,
      archives = [\<lparr>search_results = Some [(''2d'', Lines [''x'']), (''noise'', Lines [''x''])],
                   requires_txt = []\<rparr>]\<rparr>"

text \<open>A tag file \<open>procedural\<close> listing \<open>XsBSRd\<close>, whose document has an empty tag list.\<close>

definition procedural_world :: world where
  "procedural_world =
     \<lparr>json_listing = [''XsBSRd.json''],
      files = [''json/XsBSRd.json'' \<mapsto>
                 Doc (JObj [(''info'', JObj [(''id'', JStr ''XsBSRd''), (''tags'', JArr [])])])],
      cache = NoCache, cache_writable = True,
      archives = [\<lparr>search_results = Some [(''procedural'', Lines [''XsBSRd''])],
                   requires_txt = []\<rparr>]\<rparr>"

definition proc_query :: "bool \<Rightarrow> query" where
  "proc_query rebuild = empty_query\<lparr>q_tags := Some ''proc'', force_rebuild := rebuild\<rparr>"

text \<open>A cache file that holds a tag mapping and no index, over an empty corpus.\<close>

definition tag_cache_only_world :: world where
  "tag_cache_only_world =
     \<lparr>json_listing = [], files = Map.empty,
      cache = Cache \<lparr>cd_tag_cache = Some [(''procedural'', [''XsBSRd''])], cd_shader_index = None\<rparr>,
      cache_writable = True, archives = []\<rparr>"



text \<open>A document with one pass of type \<open>image\<close> that reads a texture from \<open>/media/\<close>
  with sampler data.\<close>

definition media_pass :: json where
  "media_pass =
     JObj [(''type'', JStr ''image''),
           (''inputs'', JArr [JObj [(''type'', JStr ''Texture''),
                                    (''filepath'', JStr ''/media/a/wood.jpg''),
                                    (''sampler'', JObj [(''filter'', JStr ''mipmap'')])]])]"

definition media_pass_plain :: json where
  "media_pass_plain =
     JObj [(''type'', JStr ''image''),
           (''inputs'', JArr [JObj [(''type'', JStr ''Texture''),
                                    (''filepath'', JStr ''/media/a/wood.jpg'')]])]"

definition video_pass :: json where
  "video_pass = JObj [(''inputs'', JArr [JObj [(''type'', JStr ''Video'')]])]"

definition media_world :: world where
  "media_world =
     \<lparr>json_listing = [''m.json''],
      files = [''json/m.json'' \<mapsto> Doc (JObj [(''info'', JObj []), (''renderpass'', JArr [media_pass])])],
      cache = NoCache, cache_writable = True,
      archives = [\<lparr>search_results = Some [(''wood'', Lines [''m''])], requires_txt = []\<rparr>]\<rparr>"


subsection \<open>Observations\<close>

text \<open>The slots of the cache file, \<open>None\<close> when there is no file or it does not
  unpickle.\<close>

definition cached_shader_index :: "world \<Rightarrow> shader_index_t option" where
  "cached_shader_index w = (case cache w of Cache cd \<Rightarrow> cd_shader_index cd | _ \<Rightarrow> None)"

text \<open>The index a call of \<open>load_all_json_metadata\<close> returns and the cache file it
  leaves, or the exception.\<close>

definition returned_index :: "error + (shader_index_t \<times> world) \<Rightarrow> error + shader_index_t" where
  "returned_index r = map_sum id fst r"

definition cache_left :: "error + (shader_index_t \<times> world) \<Rightarrow> error + cache_file" where
  "cache_left r = map_sum id (cache \<circ> snd) r"

text \<open>The ids of the index that \<open>search\<close> loads when no rebuild is requested.\<close>

definition loaded_ids :: "searcher \<Rightarrow> world \<Rightarrow> error + json list" where
  "loaded_ids s w = map_sum id (map fst \<circ> shader_index \<circ> fst) (load_for_search False s w)"

text \<open>A query with a tags filter only.\<close>

definition tags_query :: "string \<Rightarrow> query" where
  "tags_query x = empty_query\<lparr>q_tags := Some x\<rparr>"

text \<open>The outcome of the mutator on a world, and of a second run after it.\<close>

definition first_run :: "searcher \<Rightarrow> world \<Rightarrow> mutation" where
  "first_run s w = fst (add_requires_info_to_jsons s w)"

definition second_run :: "searcher \<Rightarrow> world \<Rightarrow> mutation" where
  "second_run s w =
     (case add_requires_info_to_jsons s w of (m1, s1, w1) \<Rightarrow> fst (add_requires_info_to_jsons s1 w1))"

text \<open>The requires pass has nothing to write at a path: loading and processing the
  document there raises, or adds no resource.\<close>

definition requires_settled :: "(string \<Rightarrow> disk_file option) \<Rightarrow> string \<Rightarrow> bool" where
  "requires_settled fs path =
     (case bind (read_json fs path) add_requires of Inr (Some data') \<Rightarrow> False | _ \<Rightarrow> True)"

text \<open>The number of distinct documents a pass has written.\<close>

definition documents_changed :: "pass_state \<Rightarrow> nat" where
  "documents_changed st = length (remdups (written st))"

section \<open>The inference ignores sampler metadata\<close>

lemma bind_Inr: "bind (Inr x) f = f x"
  by (simp add: bind_def)

lemma bind_Inl: "bind (Inl e) f = Inl e"
  by (simp add: bind_def)

lemma bind_cong_fun: "(\<And>x. m = Inr x \<Longrightarrow> f x = g x) \<Longrightarrow> bind m f = bind m g"
  by (cases m) (simp_all add: bind_def)

lemma map_of_filter_other:
  "k \<noteq> k0 \<Longrightarrow> map_of (filter (\<lambda>kv. fst kv \<noteq> k0) kvs) k = map_of kvs k"
  by (induction kvs) auto

lemma input_resources_without_sampler:
  "input_resources (without_sampler_input inp) rr = input_resources inp rr"
  by (cases inp) (simp_all add: without_sampler_input_def input_resources_def bind_Inr bind_Inl map_of_filter_other)

lemma inputs_loop_without_sampler:
  "inputs_loop (map without_sampler_input inps) rr = inputs_loop inps rr"
  by (induction inps arbitrary: rr)
     (auto simp: input_resources_without_sampler intro!: bind_cong_fun)

lemma map_of_without_sampler_pass:
  "map_of (map (\<lambda>kv. if fst kv = ''inputs'' then (fst kv, without_sampler_inputs (snd kv)) else kv) kvs) k =
     (if k = ''inputs'' then map_option without_sampler_inputs (map_of kvs k) else map_of kvs k)"
  by (induction kvs) auto

lemma iter_without_sampler_inputs:
  "bind (py_iter (without_sampler_inputs v)) (\<lambda>inps. bind (inputs_loop inps rr) f) =
   bind (py_iter v) (\<lambda>inps. bind (inputs_loop inps rr) f)"
  by (cases v) (simp_all add: without_sampler_inputs_def bind_Inr bind_Inl inputs_loop_without_sampler)

lemma pass_resources_without_sampler:
  "pass_resources (without_sampler_pass p) rr = pass_resources p rr"
proof (cases p)
  case (JObj kvs)
  show ?thesis
  proof (cases "map_of kvs ''inputs''")
    case None
    with JObj show ?thesis
      by (simp add: without_sampler_pass_def pass_resources_def bind_Inr map_of_without_sampler_pass)
  next
    case (Some v)
    with JObj show ?thesis
      by (simp add: without_sampler_pass_def pass_resources_def bind_Inr map_of_without_sampler_pass
                    iter_without_sampler_inputs)
  qed
qed (simp_all add: without_sampler_pass_def)

lemma passes_loop_without_sampler:
  "passes_loop (map without_sampler_pass ps) rr = passes_loop ps rr"
  by (induction ps arbitrary: rr)
     (auto simp: pass_resources_without_sampler intro!: bind_cong_fun)

lemma required_resources_without_sampler:
  "required_resources (without_sampler renderpass) = required_resources renderpass"
  by (cases renderpass)
     (simp_all add: without_sampler_def required_resources_def bind_Inr passes_loop_without_sampler)

text \<open>
  Claim C10. The inferred capability set does not depend on sampler metadata: two
  render-pass values that are equal once the \<open>sampler\<close> fields of their inputs are taken
  out have the same inferred set, and raise the same exception when one is raised.
\<close>

theorem sampler_independent:
  "without_sampler renderpass = without_sampler renderpass' \<Longrightarrow>
   inferred_set renderpass = inferred_set renderpass'"
  by (metis inferred_set_def required_resources_without_sampler)

theorem sampler_independent_witness:
  "without_sampler (JArr [media_pass]) = without_sampler (JArr [media_pass_plain]) \<and>
   JArr [media_pass] \<noteq> JArr [media_pass_plain] \<and>
   inferred_set (JArr [media_pass]) = inferred_set (JArr [media_pass_plain])"
proof -
  have h: "without_sampler (JArr [media_pass]) = without_sampler (JArr [media_pass_plain])"
    by (simp add: without_sampler_def without_sampler_pass_def without_sampler_inputs_def
                  without_sampler_input_def media_pass_def media_pass_plain_def)
  have d: "JArr [media_pass] \<noteq> JArr [media_pass_plain]"
    by (simp add: media_pass_def media_pass_plain_def)
  from h d sampler_independent [OF h] show ?thesis by simp
qed

section \<open>The inferred set of a render-pass list\<close>

lemma set_set_add: "set (set_add x rr) = insert x (set rr)"
  by (auto simp: set_add_def)

lemma lower_Nil_iff: "lower T = [] \<longleftrightarrow> T = []"
  by (simp add: lower_def)

lemma set_add_type_resource:
  "set (add_type_resource (lower T) rr) = lowered_type_capability T \<union> set rr"
  by (simp add: add_type_resource_def lowered_type_capability_def set_set_add lower_Nil_iff)

lemma filepath_capability_Nil: "filepath_capability [] = {}"
  by (simp add: filepath_capability_def lower_def)

lemma lowered_type_capability_Nil: "lowered_type_capability [] = {}"
  by (simp add: lowered_type_capability_def lower_def)

lemma lower_Nil: "lower [] = []"
  by (simp add: lower_def)

lemma input_resources_string_fields:
  "input_resources (JObj kvs) rr =
     (let rr1 = add_type_resource (lower T) rr
      in if sublist ''/media/'' fp \<or> sublist ''cubemap'' (lower fp)
         then Inr (set_add ''texture'' rr1) else Inr rr1)"
  if "(case map_of kvs ''type'' of None \<Rightarrow> JStr [] | Some v \<Rightarrow> v) = JStr T"
    and "(case map_of kvs ''filepath'' of None \<Rightarrow> JStr [] | Some v \<Rightarrow> v) = JStr fp"
  using that by (simp add: input_resources_def bind_Inr Let_def)

lemma optional_string_cases:
  "optional_string v \<Longrightarrow> v = None \<or> (\<exists>s. v = Some (JStr s))"
  by (auto simp: optional_string_def split: option.splits json.splits)

lemma wf_input_resources:
  assumes "wf_input inp"
  shows "\<exists>rr'. input_resources inp rr = Inr rr' \<and>
           set rr' = set rr \<union> (lowered_type_capability (field_string ''type'' inp) \<union>
                                filepath_capability (field_string ''filepath'' inp))"
proof -
  from assms obtain kvs where inp: "inp = JObj kvs"
    and t: "optional_string (map_of kvs ''type'')"
    and f: "optional_string (map_of kvs ''filepath'')"
    by (auto simp: wf_input_def split: json.splits)
  define T where "T = field_string ''type'' inp"
  define fp where "fp = field_string ''filepath'' inp"
  have T: "(case map_of kvs ''type'' of None \<Rightarrow> JStr [] | Some v \<Rightarrow> v) = JStr T"
    using optional_string_cases [OF t] by (auto simp: T_def inp field_string_def)
  have fp: "(case map_of kvs ''filepath'' of None \<Rightarrow> JStr [] | Some v \<Rightarrow> v) = JStr fp"
    using optional_string_cases [OF f] by (auto simp: fp_def inp field_string_def)
  have "input_resources inp rr =
          (let rr1 = add_type_resource (lower T) rr
           in if sublist ''/media/'' fp \<or> sublist ''cubemap'' (lower fp)
              then Inr (set_add ''texture'' rr1) else Inr rr1)"
    unfolding inp by (rule input_resources_string_fields [OF T fp])
  then show ?thesis
    unfolding T_def [symmetric] fp_def [symmetric]
    by (auto simp: Let_def set_set_add set_add_type_resource filepath_capability_def)
qed

lemma wf_inputs_loop:
  assumes "list_all wf_input inps"
  shows "\<exists>rr'. inputs_loop inps rr = Inr rr' \<and>
           set rr' = set rr \<union> (\<Union>i \<in> set inps.
                        lowered_type_capability (field_string ''type'' i) \<union>
                        filepath_capability (field_string ''filepath'' i))"
  using assms
proof (induction inps arbitrary: rr)
  case Nil
  then show ?case by simp
next
  case (Cons i inps)
  from Cons.prems have wi: "wf_input i" and ws: "list_all wf_input inps" by simp_all
  from wf_input_resources [OF wi, of rr] obtain r1 where
    r1: "input_resources i rr = Inr r1"
    "set r1 = set rr \<union> (lowered_type_capability (field_string ''type'' i) \<union>
                         filepath_capability (field_string ''filepath'' i))"
    by blast
  from Cons.IH [OF ws, of r1] obtain r2 where
    r2: "inputs_loop inps r1 = Inr r2"
    "set r2 = set r1 \<union> (\<Union>i \<in> set inps.
                 lowered_type_capability (field_string ''type'' i) \<union>
                 filepath_capability (field_string ''filepath'' i))"
    by blast
  from r1 r2 show ?case by (auto simp: bind_Inr)
qed

lemma wf_pass_cases:
  assumes "wf_pass p"
  obtains kvs where "p = JObj kvs" "optional_string (map_of kvs ''type'')"
    "map_of kvs ''inputs'' = None \<or>
     (\<exists>inps. map_of kvs ''inputs'' = Some (JArr inps) \<and> list_all wf_input inps)"
proof (cases p)
  case (JObj kvs)
  show ?thesis
  proof (cases "map_of kvs ''inputs''")
    case None
    with JObj assms that show ?thesis by (simp add: wf_pass_def)
  next
    case (Some v)
    with JObj assms that show ?thesis by (cases v) (simp_all add: wf_pass_def)
  qed
qed (use assms in \<open>simp_all add: wf_pass_def\<close>)

lemma wf_pass_resources:
  assumes "wf_pass p"
  shows "\<exists>rr'. pass_resources p rr = Inr rr' \<and>
           set rr' = set rr \<union> (lowered_type_capability (field_string ''type'' p) \<union>
                       (\<Union>i \<in> set (inputs_of p).
                          lowered_type_capability (field_string ''type'' i) \<union>
                          filepath_capability (field_string ''filepath'' i)))"
proof -
  from assms obtain kvs where p: "p = JObj kvs"
    and t: "optional_string (map_of kvs ''type'')"
    and i: "map_of kvs ''inputs'' = None \<or>
            (\<exists>inps. map_of kvs ''inputs'' = Some (JArr inps) \<and> list_all wf_input inps)"
    by (rule wf_pass_cases)
  have it: "py_iter (case map_of kvs ''inputs'' of None \<Rightarrow> JArr [] | Some v \<Rightarrow> v) = Inr (inputs_of p)"
    and wf: "list_all wf_input (inputs_of p)"
    using i by (auto simp: p inputs_of_def)
  from wf_inputs_loop [OF wf, of rr] obtain r1 where
    r1: "inputs_loop (inputs_of p) rr = Inr r1"
    "set r1 = set rr \<union> (\<Union>i \<in> set (inputs_of p).
                 lowered_type_capability (field_string ''type'' i) \<union>
                 filepath_capability (field_string ''filepath'' i))"
    by blast
  have ty: "py_lower (case map_of kvs ''type'' of None \<Rightarrow> JStr [] | Some v \<Rightarrow> v) =
              Inr (lower (field_string ''type'' p))"
    using optional_string_cases [OF t] by (auto simp: p field_string_def)
  have "pass_resources p rr = Inr (add_type_resource (lower (field_string ''type'' p)) r1)"
    using it ty r1(1) by (simp add: p pass_resources_def bind_Inr)
  with r1(2) show ?thesis
    by (auto simp: set_add_type_resource)
qed

lemma wf_passes_loop:
  assumes "list_all wf_pass ps"
  shows "\<exists>rr'. passes_loop ps rr = Inr rr' \<and>
           set rr' = set rr \<union> capability_union lowered_type_capability ps"
  using assms
proof (induction ps arbitrary: rr)
  case Nil
  then show ?case by (simp add: capability_union_def)
next
  case (Cons p ps)
  from Cons.prems have wp: "wf_pass p" and ws: "list_all wf_pass ps" by simp_all
  from wf_pass_resources [OF wp, of rr] obtain r1 where
    r1: "pass_resources p rr = Inr r1"
    "set r1 = set rr \<union> (lowered_type_capability (field_string ''type'' p) \<union>
                 (\<Union>i \<in> set (inputs_of p).
                    lowered_type_capability (field_string ''type'' i) \<union>
                    filepath_capability (field_string ''filepath'' i)))"
    by blast
  from Cons.IH [OF ws, of r1] obtain r2 where
    r2: "passes_loop ps r1 = Inr r2"
    "set r2 = set r1 \<union> capability_union lowered_type_capability ps"
    by blast
  from r1 r2 show ?case by (auto simp: bind_Inr capability_union_def)
qed

text \<open>
  Claim C3, amended. For every render-pass list of the shape the specification
  describes whose type and filepath strings are ASCII, the inference returns the
  union, over all passes and all their inputs, of the capability of each type field
  (\<open>imagebuf\<close> for \<open>image\<close> or \<open>buffer\<close>, \<open>soundbuf\<close> for \<open>sound\<close>, \<open>library\<close> for \<open>common\<close>,
  \<open>cubemap\<close> for \<open>cubemap\<close>, and for any other non-empty type the lower-cased type
  followed by \<open>buf\<close>; comparison ignoring case) and \<open>texture\<close> for each input whose
  filepath contains \<open>/media/\<close> or, ignoring case, \<open>cubemap\<close>. Absent fields contribute
  nothing and the empty list gives the empty set. The strings are ASCII because \<open>lower\<close>
  is \<open>str.lower\<close> there; on other strings \<open>str.lower\<close> follows the Unicode tables.
\<close>

theorem inferred_set_is_union:
  "list_all wf_pass ps \<Longrightarrow> list_all ascii_pass ps \<Longrightarrow>
   inferred_set (JArr ps) = Inr (capability_union lowered_type_capability ps)"
  using wf_passes_loop [of ps "[]"]
  by (auto simp: inferred_set_def required_resources_def bind_Inr)

theorem inferred_set_is_union_witness:
  "list_all wf_pass [media_pass, video_pass] \<and>
   list_all ascii_pass [media_pass, video_pass] \<and>
   inferred_set (JArr [media_pass, video_pass]) =
     Inr {''texturebuf'', ''texture'', ''imagebuf'', ''videobuf''} \<and>
   inferred_set (JArr []) = Inr {}"
proof -
  have h: "list_all wf_pass [media_pass, video_pass]"
    by (simp add: wf_pass_def wf_input_def optional_string_def media_pass_def video_pass_def)
  have a: "list_all ascii_pass [media_pass, video_pass]" by code_simp
  have n: "list_all wf_pass []" by simp
  have an: "list_all ascii_pass []" by simp
  have u: "capability_union lowered_type_capability [media_pass, video_pass] =
             {''texturebuf'', ''texture'', ''imagebuf'', ''videobuf''}"
    by (simp add: capability_union_def lowered_type_capability_def filepath_capability_def
          field_string_def inputs_of_def media_pass_def video_pass_def lower_def lower_char_def
          insert_commute)
  from h a u inferred_set_is_union [OF h a] inferred_set_is_union [OF n an]
  show ?thesis by (simp add: capability_union_def)
qed

text \<open>
  Claim C3 as stated fails: an input of type \<open>Video\<close> gives \<open>videobuf\<close>, where the rule
  \<open>T + "buf"\<close> gives \<open>Videobuf\<close>.
\<close>

theorem stated_type_rule_counterexample:
  "list_all wf_pass [video_pass] \<and>
   inferred_set (JArr [video_pass]) = Inr {''videobuf''} \<and>
   inferred_set (JArr [video_pass]) \<noteq>
     Inr (capability_union stated_type_capability [video_pass])"
  by (simp add: wf_pass_def wf_input_def optional_string_def video_pass_def
        inferred_set_def required_resources_def pass_resources_def input_resources_def
        add_type_resource_def set_add_def bind_Inr
        capability_union_def stated_type_capability_def filepath_capability_def
        field_string_def inputs_of_def lower_def lower_char_def)

section \<open>The cache file\<close>

lemma build_tag_mappings_keeps_index_slot:
  "cached_shader_index (snd (snd (build_tag_mappings s w))) = cached_shader_index w"
  by (cases "cache w")
     (auto simp: build_tag_mappings_def cached_tag_cache_def cached_shader_index_def
                 save_tag_cache_def write_cache_def empty_cache_data_def Let_def
           split: option.splits)

lemma unforced_load_keeps_tag_slot:
  "load_all_json_metadata False s w = Inr (idx, w') \<Longrightarrow> cached_tag_cache w' = cached_tag_cache w"
  by (cases "cache w")
     (auto simp: load_all_json_metadata_def loaded_cache_data_def cached_tag_cache_def
                 write_cache_def empty_cache_data_def Let_def bind_def
           split: option.splits sum.splits if_splits)

text \<open>
  Claim C9 at a forced rebuild: a cache file that holds a tag mapping and no index
  comes out of \<open>load_all_json_metadata(force_rebuild=True)\<close> with the new index and
  without its \<open>tag_cache\<close> slot. Without the forced rebuild the slot is kept.
\<close>

theorem forced_rebuild_drops_tag_cache:
  "cached_tag_cache tag_cache_only_world = Some [(''procedural'', [''XsBSRd''])] \<and>
   cache_left (load_all_json_metadata True (new_searcher ''json'') tag_cache_only_world) =
     Inr (Cache \<lparr>cd_tag_cache = None, cd_shader_index = Some []\<rparr>) \<and>
   cache_left (load_all_json_metadata False (new_searcher ''json'') tag_cache_only_world) =
     Inr (Cache \<lparr>cd_tag_cache = Some [(''procedural'', [''XsBSRd''])], cd_shader_index = Some []\<rparr>)"
  by (simp add: cache_left_def cached_tag_cache_def tag_cache_only_world_def new_searcher_def
        load_all_json_metadata_def loaded_cache_data_def empty_cache_data_def write_cache_def
        glob_json_def bind_def)

text \<open>
  Claim C4. A call of \<open>load_all_json_metadata\<close> that returns an index with the cache
  file writable, followed by a call with \<open>force_rebuild=False\<close>, returns the same
  index whatever the corpus has become in between (so the corpus is not scanned), and
  leaves the cache file as it is; and with \<open>force_rebuild=False\<close> a cache file that
  holds a \<open>shader_index\<close> slot gives that slot back and is left unchanged.
\<close>

theorem cache_round_trip:
  "(load_all_json_metadata rebuild s w = Inr (idx, w1) \<longrightarrow> cache_writable w \<longrightarrow>
      load_all_json_metadata False s' (w1\<lparr>json_listing := names, files := fs\<rparr>) =
        Inr (idx, w1\<lparr>json_listing := names, files := fs\<rparr>)) \<and>
   (cached_shader_index w = Some idx0 \<longrightarrow> load_all_json_metadata False s w = Inr (idx0, w))"
  by (cases "cache w")
     (auto simp: load_all_json_metadata_def loaded_cache_data_def cached_shader_index_def
                 write_cache_def empty_cache_data_def Let_def bind_def
           split: option.splits sum.splits if_splits)

theorem cache_round_trip_witness:
  "cache_writable glow_world \<and>
   returned_index (load_all_json_metadata True (new_searcher ''json'') glow_world) =
     Inr [(JStr ''a'', (empty_entry ''json/a.json'')\<lparr>e_name := JStr ''Glow Sphere''\<rparr>)] \<and>
   returned_index (load_all_json_metadata False (new_searcher ''json'')
      ((snd (projr (load_all_json_metadata True (new_searcher ''json'') glow_world)))
         \<lparr>json_listing := [], files := Map.empty\<rparr>)) =
     returned_index (load_all_json_metadata True (new_searcher ''json'') glow_world)"
proof -
  let ?r = "load_all_json_metadata True (new_searcher ''json'') glow_world"
  have r: "\<not> isl ?r" by code_simp
  have v: "returned_index ?r =
             Inr [(JStr ''a'', (empty_entry ''json/a.json'')\<lparr>e_name := JStr ''Glow Sphere''\<rparr>)]"
    by code_simp
  have a: "?r = Inr (fst (projr ?r), snd (projr ?r))"
    using r by (simp add: sum.collapse(2))
  have b: "cache_writable glow_world" by (simp add: glow_world_def)
  from cache_round_trip [where rebuild = True and s = "new_searcher ''json''" and w = glow_world
      and idx = "fst (projr ?r)" and ?w1.0 = "snd (projr ?r)" and s' = "new_searcher ''json''"
      and names = "[]" and fs = Map.empty] a b
  have "load_all_json_metadata False (new_searcher ''json'')
          ((snd (projr ?r))\<lparr>json_listing := [], files := Map.empty\<rparr>) =
        Inr (fst (projr ?r), (snd (projr ?r))\<lparr>json_listing := [], files := Map.empty\<rparr>)"
    by blast
  then have "returned_index (load_all_json_metadata False (new_searcher ''json'')
          ((snd (projr ?r))\<lparr>json_listing := [], files := Map.empty\<rparr>)) = Inr (fst (projr ?r))"
    by (simp add: returned_index_def)
  moreover have "returned_index ?r = Inr (fst (projr ?r))"
    by (subst a) (simp add: returned_index_def)
  ultimately show ?thesis using b v by simp
qed

section \<open>Counting tag updates\<close>

text \<open>The counter of the tag pass counts its writes.\<close>

lemma tag_step_count:
  "updated_count st = length (written st) \<Longrightarrow>
   updated_count (tag_step jd tag shader_id st) = length (written (tag_step jd tag shader_id st))"
  by (auto simp: tag_step_def Let_def split: sum.splits option.splits)

lemma tag_ids_loop_count:
  "updated_count st = length (written st) \<Longrightarrow>
   updated_count (tag_ids_loop jd tag ids st) = length (written (tag_ids_loop jd tag ids st))"
  by (induction ids arbitrary: st) (simp_all add: tag_step_count)

lemma tag_pass_counts_writes:
  "updated_count st = length (written st) \<Longrightarrow>
   updated_count (tag_pass jd tm st) = length (written (tag_pass jd tm st))"
  by (induction tm arbitrary: st) (auto simp: tag_ids_loop_count)

text \<open>
  Claim C7 on a concrete corpus: the tag files \<open>2d\<close> and \<open>noise\<close> both list shader
  \<open>x\<close>, whose document has no tags. The first pass writes the one document twice and
  returns the count 2, while one document has changed.
\<close>

theorem tag_count_counts_pairs:
  "tag_updated_count (first_run (new_searcher ''json'') two_tags_world) = 2 \<and>
   written (tag_pass_end (first_run (new_searcher ''json'') two_tags_world)) =
     [''json/x.json'', ''json/x.json''] \<and>
   documents_changed (tag_pass_end (first_run (new_searcher ''json'') two_tags_world)) = 1 \<and>
   disk (tag_pass_end (first_run (new_searcher ''json'') two_tags_world)) ''json/x.json'' =
     Some (Doc (JObj [(''info'', JObj [(''tags'', JArr [JStr ''2d'', JStr ''noise''])])]))"
  by code_simp

section \<open>Building the index\<close>

text \<open>What the scan skips: a path that names nothing, a file that does not parse,
  a document that is not a dict or has no \<open>info\<close> key.\<close>

lemma scan_skips_unparseable:
  "fs p = None \<or> fs p = Some Unparseable \<Longrightarrow>
   index_files fs (p # rest) idx = index_files fs rest idx"
  by (auto simp: read_json_def bind_Inl caught_by_scan_def)

lemma scan_skips_other_shape:
  assumes "fs p = Some (Doc d)"
    and "\<And>kvs. d = JObj kvs \<Longrightarrow> map_of kvs ''info'' = None"
  shows "index_files fs (p # rest) idx = index_files fs rest idx"
proof -
  have "index_document p d idx = Inr idx"
    using assms(2) by (cases d) (simp_all add: index_document_def)
  with assms(1) show ?thesis by (simp add: read_json_def bind_Inr)
qed

text \<open>
  Claim C5 on two concrete corpora. A well-formed document without an id in a file named
  \<open>a.json.json\<close> is indexed under \<open>a\<close>, not under the file name without its extension,
  \<open>a.json\<close>. A document whose \<open>info\<close> section is a number makes the whole build raise
  \<open>AttributeError\<close>, although the other document of the corpus is well-formed.
\<close>

theorem index_builder_divergences:
  "returned_index (load_all_json_metadata True (new_searcher ''json'') double_extension_world) =
     Inr [(JStr ''a'', empty_entry ''json/a.json.json'')] \<and>
   returned_index (load_all_json_metadata True (new_searcher ''json'') number_info_world) =
     Inl AttributeError"
  by code_simp

section \<open>Searching\<close>

lemma prepare_results_ids:
  "set ks \<subseteq> fst ` set idx \<Longrightarrow> \<exists>rs. prepare_results idx ks = Inr rs \<and> map r_id rs = ks"
proof (induction ks)
  case Nil
  then show ?case by simp
next
  case (Cons k ks)
  then obtain rs where rs: "prepare_results idx ks = Inr rs" "map r_id rs = ks" by auto
  from Cons.prems have "k \<in> fst ` set idx" by simp
  then obtain e where "map_of idx k = Some e"
    by (metis domD dom_map_of_conv_image_fst)
  with rs show ?case by (simp add: bind_Inr)
qed

lemma text_filter_not_supplied:
  "\<not> supplied param \<Longrightarrow> text_filter param P idx m = Inr m"
  by (auto simp: supplied_def text_filter_def split: option.splits)


lemma requires_filter_none:
  "\<not> list_ex req capabilities \<Longrightarrow> requires_filter req idx w m s = Inr (m, s)"
  by (simp add: requires_filter_def)

text \<open>
  Claim C2, amended. With no text filter, no capability filter and no rebuild, \<open>search\<close>
  returns one record for every id of the index it loads, in full, and raises only when
  loading the index raises.
\<close>

theorem search_without_predicates:
  "no_predicates q \<Longrightarrow> result_ids (search q s w) = loaded_ids s w"
proof -
  assume np: "no_predicates q"
  then have fr: "force_rebuild q = False" by (simp add: no_predicates_def)
  show ?thesis
  proof (cases "load_for_search False s w")
    case (Inl e)
    then show ?thesis by (simp add: search_def fr bind_Inl result_ids_def loaded_ids_def)
  next
    case (Inr p)
    obtain s1 w1 where p: "p = (s1, w1)" by (cases p)
    have tf: "text_filters q s1 = Inr (map fst (shader_index s1))"
      using np by (simp add: text_filters_def no_predicates_def text_filter_not_supplied bind_Inr)
    have rf: "requires_filter (q_requires q) (shader_index s1) w1 (map fst (shader_index s1)) s1 =
                Inr (map fst (shader_index s1), s1)"
      using np by (simp add: no_predicates_def requires_filter_none)
    obtain rs where rs: "prepare_results (shader_index s1) (map fst (shader_index s1)) = Inr rs"
      "map r_id rs = map fst (shader_index s1)"
      using prepare_results_ids [of "map fst (shader_index s1)" "shader_index s1"] by auto
    show ?thesis
      using Inr p tf rf rs
      by (simp add: search_def fr bind_Inr result_ids_def loaded_ids_def)
  qed
qed

theorem search_without_predicates_witness:
  "no_predicates empty_query \<and>
   result_ids (search empty_query (new_searcher ''json'') glow_world) =
     loaded_ids (new_searcher ''json'') glow_world \<and>
   loaded_ids (new_searcher ''json'') glow_world = Inr [JStr ''a'']"
proof -
  have h: "no_predicates empty_query" by code_simp
  have l: "loaded_ids (new_searcher ''json'') glow_world = Inr [JStr ''a'']" by code_simp
  from h l search_without_predicates [OF h, of "new_searcher ''json''" glow_world]
  show ?thesis by simp
qed

text \<open>
  Claim C2 as stated fails: on a corpus of one document the search without predicates
  returns that document, not an empty result.
\<close>

theorem search_without_predicates_counterexample:
  "no_predicates empty_query \<and>
   result_ids (search empty_query (new_searcher ''json'') glow_world) = Inr [JStr ''a''] \<and>
   result_ids (search empty_query (new_searcher ''json'') glow_world) \<noteq> Inr []"
  by code_simp

section \<open>The tags filter and the tag mappings\<close>

lemma any_tag_matches_strings:
  "list_all is_string ts \<Longrightarrow>
   any_tag_matches x ts = Inr (\<exists>t. JStr t \<in> set ts \<and> sublist x (lower t))"
proof (induction ts)
  case Nil
  then show ?case by simp
next
  case (Cons a ts)
  then obtain t where a: "a = JStr t" by (cases a) (simp_all add: is_string_def)
  from Cons show ?case by (auto simp: a bind_Inr)
qed

lemma merge_cached_tags_strings:
  "list_all is_string ts \<Longrightarrow>
   \<exists>ts'. merge_cached_tags shader_id x tm (JArr ts) = Inr (JArr ts') \<and>
         list_all is_string ts' \<and>
         (\<forall>T ids. (T, ids) \<in> set tm \<longrightarrow> id_in shader_id ids \<longrightarrow> prefix x (lower T) \<longrightarrow>
                   JStr T \<in> set ts') \<and>
         set ts \<subseteq> set ts'"
proof (induction tm arbitrary: ts)
  case Nil
  then show ?case by simp
next
  case (Cons p tm)
  obtain T ids where p: "p = (T, ids)" by (cases p)
  show ?case
  proof (cases "id_in shader_id ids \<and> prefix x (lower T) \<and> JStr T \<notin> set ts")
    case True
    have "is_string (JStr T)" by (simp add: is_string_def)
    with Cons.prems have "list_all is_string (ts @ [JStr T])" by simp
    from Cons.IH [OF this] obtain ts' where
      "merge_cached_tags shader_id x tm (JArr (ts @ [JStr T])) = Inr (JArr ts')"
      "list_all is_string ts'"
      "\<forall>T ids. (T, ids) \<in> set tm \<longrightarrow> id_in shader_id ids \<longrightarrow> prefix x (lower T) \<longrightarrow>
                JStr T \<in> set ts'"
      "set (ts @ [JStr T]) \<subseteq> set ts'"
      by blast
    with True show ?thesis
      by (intro exI [of _ ts']) (auto simp: p bind_Inr)
  next
    case False
    from Cons.IH [OF Cons.prems] obtain ts' where
      "merge_cached_tags shader_id x tm (JArr ts) = Inr (JArr ts')"
      "list_all is_string ts'"
      "\<forall>T ids. (T, ids) \<in> set tm \<longrightarrow> id_in shader_id ids \<longrightarrow> prefix x (lower T) \<longrightarrow>
                JStr T \<in> set ts'"
      "set ts \<subseteq> set ts'"
      by blast
    with False show ?thesis
      by (intro exI [of _ ts']) (auto simp: p bind_Inr)
  qed
qed

lemma tags_match_total:
  assumes "string_list (e_tags e)"
  shows "\<exists>b. tags_match tm x shader_id e = Inr b \<and>
             ((\<exists>T ids. (T, ids) \<in> set tm \<and> id_in shader_id ids \<and> prefix x (lower T)) \<longrightarrow> b)"
proof -
  from assms obtain ts where ts: "e_tags e = JArr ts" "list_all is_string ts"
    by (cases "e_tags e") (simp_all add: string_list_def)
  from merge_cached_tags_strings [OF ts(2), of shader_id x tm] obtain ts' where
    m: "merge_cached_tags shader_id x tm (JArr ts) = Inr (JArr ts')"
    "list_all is_string ts'"
    "\<forall>T ids. (T, ids) \<in> set tm \<longrightarrow> id_in shader_id ids \<longrightarrow> prefix x (lower T) \<longrightarrow>
              JStr T \<in> set ts'"
    by blast
  have "tags_match tm x shader_id e = Inr (\<exists>t. JStr t \<in> set ts' \<and> sublist x (lower t))"
    using ts m by (simp add: tags_match_def bind_Inr any_tag_matches_strings)
  moreover have "\<exists>t. JStr t \<in> set ts' \<and> sublist x (lower t)"
    if "(T, ids) \<in> set tm" "id_in shader_id ids" "prefix x (lower T)" for T ids
    using that m(3) by (meson prefix_imp_sublist)
  ultimately show ?thesis by auto
qed

lemma collect_total:
  assumes "\<forall>(k, e) \<in> set idx. \<exists>b. P k e = Inr b"
  shows "\<exists>ks. collect P idx = Inr ks \<and> (\<forall>(k, e) \<in> set idx. P k e = Inr True \<longrightarrow> k \<in> set ks)"
  using assms
proof (induction idx)
  case Nil
  then show ?case by simp
next
  case (Cons p idx)
  obtain k e where p: "p = (k, e)" by (cases p)
  from Cons.prems obtain b where b: "P k e = Inr b" by (auto simp: p)
  from Cons obtain ks where ks: "collect P idx = Inr ks"
    "\<forall>(k, e) \<in> set idx. P k e = Inr True \<longrightarrow> k \<in> set ks"
    by auto
  show ?case
    using b ks by (auto simp: p bind_Inr)
qed

lemma build_tag_mappings_fields:
  "build_tag_mappings s w = (tm, s1, w1) \<Longrightarrow>
   tag_cache s1 = tm \<and> shader_index s1 = shader_index s"
  by (auto simp: build_tag_mappings_def Let_def split: option.splits)

lemma tag_mapping_prefix_found:
  assumes "load_all_json_metadata False s w = Inr (idx, wi)"
    and "build_tag_mappings (s\<lparr>shader_index := idx\<rparr>) wi = (tm, st, wt)"
    and "\<forall>e \<in> snd ` set idx. string_list (e_tags e)"
    and "(T, ids) \<in> set tm" and "i \<in> set ids" and "JStr i \<in> fst ` set idx"
    and "x \<noteq> []" and "prefix (lower x) (lower T)"
  shows "\<exists>found. result_ids (search (tags_query x) s w) = Inr found \<and> JStr i \<in> set found"
proof -
  let ?q = "tags_query x"
  have f: "tag_cache st = tm" "shader_index st = idx"
    using build_tag_mappings_fields [OF assms(2)] by simp_all
  have l: "load_for_search False s w = Inr (st, wt)"
    using assms(1,2) by (simp add: load_for_search_def bind_Inr)
  have tot: "\<forall>(k, e) \<in> set idx. \<exists>b. tags_match tm (lower x) k e = Inr b"
    using assms(3) tags_match_total by fastforce
  from collect_total [OF tot] obtain ks where ks: "collect (tags_match tm (lower x)) idx = Inr ks"
    "\<forall>(k, e) \<in> set idx. tags_match tm (lower x) k e = Inr True \<longrightarrow> k \<in> set ks"
    by blast
  from assms(6) obtain e where e: "(JStr i, e) \<in> set idx" by auto
  then have "string_list (e_tags e)" using assms(3) by force
  from tags_match_total [OF this, of tm "lower x" "JStr i"] assms(4,5,8)
  have "tags_match tm (lower x) (JStr i) e = Inr True"
    by (auto simp: id_in_def)
  with ks(2) e have ik: "JStr i \<in> set ks" by blast
  define m where "m = filter (\<lambda>k. k \<in> set ks) (map fst idx)"
  have im: "JStr i \<in> set m" using ik assms(6) by (auto simp: m_def)
  have sub: "set m \<subseteq> fst ` set idx" by (auto simp: m_def)
  have tf: "text_filters ?q st = Inr m"
    using ks(1) assms(7)
    by (simp add: text_filters_def tags_query_def empty_query_def text_filter_def f bind_Inr m_def)
  have rf: "requires_filter (q_requires ?q) idx wt m st = Inr (m, st)"
    by (simp add: requires_filter_def tags_query_def empty_query_def capabilities_def)
  from prepare_results_ids [OF sub] obtain rs where
    rs: "prepare_results idx m = Inr rs" "map r_id rs = m" by blast
  have "result_ids (search ?q s w) = Inr m"
    using l tf rf rs f
    by (simp add: search_def bind_Inr result_ids_def tags_query_def empty_query_def)
  with im show ?thesis by blast
qed

text \<open>With a rebuild requested, the load of \<open>search\<close> leaves the tag mappings of the
  searcher as they are.\<close>

lemma rebuild_keeps_tag_mappings:
  "load_for_search True s w = Inr (sr, wr) \<Longrightarrow> tag_cache sr = tag_cache s"
  by (auto simp: load_for_search_def bind_def split: sum.splits)

text \<open>
  Claim C8, amended. When no rebuild is requested, \<open>search\<close> loads the index and the
  tag mappings; if the mappings give a tag \<open>T\<close> a set that holds a shader id of the
  index, the tags of every indexed record are a list of strings, and the filter string
  \<open>x\<close> is not empty and, ignoring case, a prefix of \<open>T\<close>, both of them ASCII, then a
  search by that tags filter alone returns and its result holds the shader, whatever
  its own tag list is. When a rebuild is requested, the load of \<open>search\<close> does not
  build the tag mappings: the searcher filters with the tag mappings it already
  holds.
\<close>

theorem tag_mapping_prefix_search:
  "(load_all_json_metadata False s w = Inr (idx, wi) \<longrightarrow>
    build_tag_mappings (s\<lparr>shader_index := idx\<rparr>) wi = (tm, st, wt) \<longrightarrow>
    (\<forall>e \<in> snd ` set idx. string_list (e_tags e)) \<longrightarrow>
    (T, ids) \<in> set tm \<longrightarrow> i \<in> set ids \<longrightarrow> JStr i \<in> fst ` set idx \<longrightarrow>
    ascii x \<longrightarrow> ascii T \<longrightarrow> x \<noteq> [] \<longrightarrow> prefix (lower x) (lower T) \<longrightarrow>
    (\<exists>found. result_ids (search (tags_query x) s w) = Inr found \<and> JStr i \<in> set found)) \<and>
   (load_for_search True s w = Inr (sr, wr) \<longrightarrow> tag_cache sr = tag_cache s)"
  using tag_mapping_prefix_found [of s w idx wi tm st wt T ids i x]
    rebuild_keeps_tag_mappings [of s w sr wr]
  by blast

theorem tag_mapping_prefix_search_witness:
  "scan_tag_dirs (archives procedural_world) [] = [(''procedural'', [''XsBSRd''])] \<and>
   ascii ''proc'' \<and> ascii ''procedural'' \<and>
   prefix (lower ''proc'') (lower ''procedural'') \<and>
   (\<exists>found. result_ids (search (tags_query ''proc'') (new_searcher ''json'') procedural_world) =
              Inr found \<and> JStr ''XsBSRd'' \<in> set found) \<and>
   \<not> isl (load_for_search True (new_searcher ''json'') procedural_world) \<and>
   tag_cache (fst (projr (load_for_search True (new_searcher ''json'') procedural_world))) = []"
proof -
  let ?s = "new_searcher ''json''"
  let ?r = "load_all_json_metadata False ?s procedural_world"
  let ?b = "build_tag_mappings (?s\<lparr>shader_index := fst (projr ?r)\<rparr>) (snd (projr ?r))"
  let ?l = "load_for_search True ?s procedural_world"
  have "\<not> isl ?r" by code_simp
  then have h1: "?r = Inr (fst (projr ?r), snd (projr ?r))"
    by (simp add: sum.collapse(2))
  have h2: "?b = (fst ?b, fst (snd ?b), snd (snd ?b))" by simp
  have h3: "\<forall>e \<in> snd ` set (fst (projr ?r)). string_list (e_tags e)" by code_simp
  have h4: "(''procedural'', [''XsBSRd'']) \<in> set (fst ?b)" by code_simp
  have h5: "''XsBSRd'' \<in> set [''XsBSRd'']" by simp
  have h6: "JStr ''XsBSRd'' \<in> fst ` set (fst (projr ?r))" by code_simp
  have h7: "ascii ''proc''" by code_simp
  have h8: "ascii ''procedural''" by code_simp
  have h9: "''proc'' \<noteq> []" by simp
  have h10: "prefix (lower ''proc'') (lower ''procedural'')" by code_simp
  have t: "scan_tag_dirs (archives procedural_world) [] = [(''procedural'', [''XsBSRd''])]"
    by code_simp
  have il: "\<not> isl ?l" by code_simp
  then have h11: "?l = Inr (fst (projr ?l), snd (projr ?l))"
    by (simp add: sum.collapse(2))
  have e: "tag_cache ?s = []" by code_simp
  from tag_mapping_prefix_search [where s = ?s and w = procedural_world
      and idx = "fst (projr ?r)" and wi = "snd (projr ?r)"
      and tm = "fst ?b" and st = "fst (snd ?b)" and wt = "snd (snd ?b)"
      and T = "''procedural''" and ids = "[''XsBSRd'']" and i = "''XsBSRd''" and x = "''proc''"
      and sr = "fst (projr ?l)" and wr = "snd (projr ?l)"]
    h1 h2 h3 h4 h5 h6 h7 h8 h9 h10 h11
  have "(\<exists>found. result_ids (search (tags_query ''proc'') ?s procedural_world) =
              Inr found \<and> JStr ''XsBSRd'' \<in> set found) \<and>
        tag_cache (fst (projr ?l)) = tag_cache ?s"
    by blast
  with t h7 h8 h10 il e show ?thesis by simp
qed

text \<open>
  Claim C8 as stated fails when a rebuild is requested: line 283 then skips
  \<open>build_tag_mappings\<close>, a new searcher has no tag mappings, and the tags filter
  \<open>proc\<close> does not find the shader that the tag file \<open>procedural\<close> lists.
\<close>

theorem rebuild_skips_tag_mappings_counterexample:
  "scan_tag_dirs (archives procedural_world) [] = [(''procedural'', [''XsBSRd''])] \<and>
   returned_index (load_all_json_metadata True (new_searcher ''json'') procedural_world) =
     Inr [(JStr ''XsBSRd'', empty_entry ''json/XsBSRd.json'')] \<and>
   result_ids (search (proc_query True) (new_searcher ''json'') procedural_world) = Inr [] \<and>
   result_ids (search (proc_query False) (new_searcher ''json'') procedural_world) =
     Inr [JStr ''XsBSRd'']"
  by code_simp

section \<open>The capability filter\<close>







lemma inferred_string_values:
  "map inferred_string
     [Buffer, Cubemap, Image, Imagebuf, Keyboard, Library, Mic, Music, Musicstream,
      Sound, Soundbuf, Texture, Video, Volume, Webcam, Common] =
   [''imagebuf'', ''cubemap'', ''imagebuf'', ''imagebuf'', ''keyboardbuf'', ''library'',
    ''micbuf'', ''musicbuf'', ''musicstreambuf'', ''soundbuf'', ''soundbuf'', ''texturebuf'',
    ''videobuf'', ''volumebuf'', ''webcambuf'', ''library'']"
  by (simp add: inferred_string_def)








section \<open>The requires pass is idempotent\<close>

lemma set_append_missing: "set (append_missing rs reqs) = set reqs \<union> JStr ` set rs"
  by (induction rs arbitrary: reqs) auto

lemma append_missing_present:
  "JStr ` set rs \<subseteq> set reqs \<Longrightarrow> append_missing rs reqs = reqs"
  by (induction rs arbitrary: reqs) auto

text \<open>What \<open>add_requires\<close> looks at: the render passes, and the \<open>requires\<close> entry of an
  \<open>info\<close> that is a dict.\<close>

lemma add_requires_JObj:
  assumes "map_of kvs ''info'' = Some (JObj ikvs)" and "map_of kvs ''renderpass'' = Some rp"
  shows "add_requires (JObj kvs) =
     bind (required_resources rp) (\<lambda>required.
       case (case map_of ikvs ''requires'' of None \<Rightarrow> JArr [] | Some r \<Rightarrow> r) of
         JArr reqs \<Rightarrow>
           (let reqs' = append_missing required reqs in
            if length reqs' > length reqs
            then Inr (Some (JObj (AList.update ''info''
                   (JObj (AList.update ''requires'' (JArr reqs') ikvs)) kvs)))
            else Inr None)
       | JStr t \<Rightarrow> bind (all_present required (JStr t)) (\<lambda>u. Inr None)
       | JObj d \<Rightarrow> bind (all_present required (JObj d)) (\<lambda>u. Inr None)
       | _ \<Rightarrow> Inl TypeError)"
  using assms by (simp add: add_requires_def)

lemma add_requires_writes:
  assumes "add_requires data = Inr (Some data')"
  obtains kvs ikvs rp required reqs where
    "data = JObj kvs" "map_of kvs ''info'' = Some (JObj ikvs)"
    "map_of kvs ''renderpass'' = Some rp" "required_resources rp = Inr required"
    "(case map_of ikvs ''requires'' of None \<Rightarrow> JArr [] | Some r \<Rightarrow> r) = JArr reqs"
    "data' = JObj (AList.update ''info''
               (JObj (AList.update ''requires'' (JArr (append_missing required reqs)) ikvs)) kvs)"
proof -
  from assms obtain kvs where d: "data = JObj kvs"
    by (cases data) (simp_all add: add_requires_def)
  from assms d obtain info rp where i: "map_of kvs ''info'' = Some info"
    and rp: "map_of kvs ''renderpass'' = Some rp"
    by (cases "map_of kvs ''info''"; cases "map_of kvs ''renderpass''")
       (simp_all add: add_requires_def)
  from assms d i rp obtain required where rq: "required_resources rp = Inr required"
    by (cases "required_resources rp") (simp_all add: add_requires_def bind_Inl)
  from assms d i rp rq obtain ikvs where ik: "info = JObj ikvs"
    by (cases info) (simp_all add: add_requires_def bind_Inr)
  let ?r = "case map_of ikvs ''requires'' of None \<Rightarrow> JArr [] | Some r \<Rightarrow> r"
  have eq: "add_requires data =
     (case ?r of
         JArr reqs \<Rightarrow>
           (let reqs' = append_missing required reqs in
            if length reqs' > length reqs
            then Inr (Some (JObj (AList.update ''info''
                   (JObj (AList.update ''requires'' (JArr reqs') ikvs)) kvs)))
            else Inr None)
       | JStr t \<Rightarrow> bind (all_present required (JStr t)) (\<lambda>u. Inr None)
       | JObj d \<Rightarrow> bind (all_present required (JObj d)) (\<lambda>u. Inr None)
       | _ \<Rightarrow> Inl TypeError)"
    using add_requires_JObj [of kvs ikvs rp] i rp rq ik d by (simp add: bind_Inr)
  from assms eq obtain reqs where rs: "?r = JArr reqs"
    by (cases ?r) (auto simp: bind_def split: sum.splits)
  from assms eq rs have "data' = JObj (AList.update ''info''
               (JObj (AList.update ''requires'' (JArr (append_missing required reqs)) ikvs)) kvs)"
    by (simp add: Let_def split: if_splits)
  with d i ik rp rq rs that show ?thesis by blast
qed

lemma add_requires_idempotent:
  assumes "add_requires data = Inr (Some data')"
  shows "add_requires data' = Inr None"
proof -
  from assms obtain kvs ikvs rp required reqs where
    d: "data = JObj kvs" "map_of kvs ''info'' = Some (JObj ikvs)"
    "map_of kvs ''renderpass'' = Some rp" "required_resources rp = Inr required"
    "(case map_of ikvs ''requires'' of None \<Rightarrow> JArr [] | Some r \<Rightarrow> r) = JArr reqs"
    "data' = JObj (AList.update ''info''
               (JObj (AList.update ''requires'' (JArr (append_missing required reqs)) ikvs)) kvs)"
    by (rule add_requires_writes)
  let ?reqs' = "append_missing required reqs"
  let ?ikvs' = "AList.update ''requires'' (JArr ?reqs') ikvs"
  let ?kvs' = "AList.update ''info'' (JObj ?ikvs') kvs"
  have i: "map_of ?kvs' ''info'' = Some (JObj ?ikvs')" by (simp add: update_conv')
  have r: "map_of ?kvs' ''renderpass'' = Some rp" using d(3) by (simp add: update_conv')
  have q: "(case map_of ?ikvs' ''requires'' of None \<Rightarrow> JArr [] | Some r \<Rightarrow> r) = JArr ?reqs'"
    by (simp add: update_conv')
  have "append_missing required ?reqs' = ?reqs'"
    by (rule append_missing_present) (simp add: set_append_missing)
  then show ?thesis
    unfolding d(6) add_requires_JObj [OF i r] using d(4) q by (simp add: bind_Inr)
qed

text \<open>Adding a tag does not change what the requires pass would do with a document.\<close>

lemma add_tag_writes:
  assumes "add_tag tag data = Inr (Some data')"
  obtains kvs ikvs ts where
    "data = JObj kvs" "map_of kvs ''info'' = Some (JObj ikvs)"
    "data' = JObj (AList.update ''info'' (JObj (AList.update ''tags'' (JArr ts) ikvs)) kvs)"
proof -
  from assms obtain kvs where d: "data = JObj kvs"
    by (cases data) (simp_all add: add_tag_def)
  from assms d obtain info where i: "map_of kvs ''info'' = Some info"
    by (cases "map_of kvs ''info''") (simp_all add: add_tag_def)
  from assms d i obtain ikvs where ik: "info = JObj ikvs"
    by (cases info) (simp_all add: add_tag_def)
  let ?t = "case map_of ikvs ''tags'' of None \<Rightarrow> JArr [] | Some t \<Rightarrow> t"
  from assms d i ik obtain ts where "?t = JArr ts"
    by (cases ?t) (auto simp: add_tag_def Let_def bind_def split: if_splits)
  with assms d i ik have "data' = JObj (AList.update ''info''
      (JObj (AList.update ''tags'' (JArr (ts @ [JStr tag])) ikvs)) kvs)"
    by (auto simp: add_tag_def Let_def bind_def split: if_splits)
  with d i ik that show ?thesis by blast
qed

lemma add_tag_keeps_requires_outcome:
  assumes "add_tag tag data = Inr (Some data')"
    and "add_requires data' = Inr (Some x)"
  shows "\<exists>y. add_requires data = Inr (Some y)"
proof -
  from assms(1) obtain kvs ikvs ts where
    d: "data = JObj kvs" "map_of kvs ''info'' = Some (JObj ikvs)"
    "data' = JObj (AList.update ''info'' (JObj (AList.update ''tags'' (JArr ts) ikvs)) kvs)"
    by (rule add_tag_writes)
  let ?ikvs' = "AList.update ''tags'' (JArr ts) ikvs"
  let ?kvs' = "AList.update ''info'' (JObj ?ikvs') kvs"
  have i: "map_of ?kvs' ''info'' = Some (JObj ?ikvs')" by (simp add: update_conv')
  have r: "map_of ?kvs' ''renderpass'' = map_of kvs ''renderpass''" by (simp add: update_conv')
  have q: "map_of ?ikvs' ''requires'' = map_of ikvs ''requires''" by (simp add: update_conv')
  from assms(2) obtain rp where rp: "map_of kvs ''renderpass'' = Some rp"
    unfolding d(3) using r
    by (cases "map_of kvs ''renderpass''") (simp_all add: add_requires_def i)
  have rp': "map_of ?kvs' ''renderpass'' = Some rp" using r rp by simp
  from assms(2) show ?thesis
    unfolding d(1) d(3) add_requires_JObj [OF i rp'] add_requires_JObj [OF d(2) rp] q
    by (auto simp: bind_def Let_def split: sum.splits json.splits if_splits)
qed

text \<open>Settled paths stay settled through both passes.\<close>

lemma requires_settled_write:
  "add_requires data = Inr (Some data') \<Longrightarrow> requires_settled (fs(p \<mapsto> Doc data')) p"
  by (simp add: requires_settled_def read_json_def bind_Inr add_requires_idempotent)

lemma requires_settled_other:
  "q \<noteq> p \<Longrightarrow> requires_settled (fs(p \<mapsto> d)) q = requires_settled fs q"
  by (simp add: requires_settled_def read_json_def)

lemma tag_step_settled:
  assumes "requires_settled (disk st) q"
  shows "requires_settled (disk (tag_step jd tag shader_id st)) q"
proof -
  let ?p = "path_join jd (shader_id @ ''.json'')"
  show ?thesis
  proof (cases "\<exists>data'. disk st ?p \<noteq> None \<and>
                  bind (read_json (disk st) ?p) (add_tag tag) = Inr (Some data')")
    case False
    then have "tag_step jd tag shader_id st = st"
      by (auto simp: tag_step_def Let_def split: sum.splits option.splits)
    with assms show ?thesis by simp
  next
    case True
    then obtain data' where w: "bind (read_json (disk st) ?p) (add_tag tag) = Inr (Some data')"
      and ex: "disk st ?p \<noteq> None" by blast
    then obtain data where rd: "read_json (disk st) ?p = Inr data"
      and at: "add_tag tag data = Inr (Some data')"
      by (cases "read_json (disk st) ?p") (simp_all add: bind_def)
    have dk: "disk (tag_step jd tag shader_id st) = (disk st)(?p \<mapsto> Doc data')"
      using w ex by (simp add: tag_step_def Let_def)
    show ?thesis
    proof (cases "q = ?p")
      case False
      with assms show ?thesis by (simp add: dk requires_settled_other)
    next
      case True
      have "\<not> (\<exists>y. add_requires data = Inr (Some y))"
        using assms rd by (auto simp: True requires_settled_def bind_Inr)
      with add_tag_keeps_requires_outcome [OF at]
      have "\<not> (\<exists>x. add_requires data' = Inr (Some x))" by blast
      then show ?thesis
        by (auto simp: True dk requires_settled_def read_json_def bind_Inr
                 split: sum.splits option.splits)
    qed
  qed
qed

lemma tag_ids_loop_settled:
  "requires_settled (disk st) q \<Longrightarrow> requires_settled (disk (tag_ids_loop jd tag ids st)) q"
  by (induction ids arbitrary: st) (simp_all add: tag_step_settled)

lemma tag_pass_settled:
  "requires_settled (disk st) q \<Longrightarrow> requires_settled (disk (tag_pass jd tm st)) q"
  by (induction tm arbitrary: st) (auto simp: tag_ids_loop_settled)

lemma requires_step_cases:
  "requires_step jd filename st = st \<or>
   (\<exists>data data'. suffix ''.json'' filename \<and>
      read_json (disk st) (path_join jd filename) = Inr data \<and>
      add_requires data = Inr (Some data') \<and>
      requires_step jd filename st =
        \<lparr>updated_count = updated_count st + 1,
         written = written st @ [path_join jd filename],
         disk = (disk st)(path_join jd filename \<mapsto> Doc data')\<rparr>)"
  by (auto simp: requires_step_def Let_def bind_def split: sum.splits option.splits)

lemma requires_step_settled:
  assumes "requires_settled (disk st) q"
  shows "requires_settled (disk (requires_step jd filename st)) q"
  using requires_step_cases [of jd filename st] assms
  by (cases "q = path_join jd filename")
     (auto simp: requires_settled_write requires_settled_other)

lemma requires_step_settles:
  assumes "suffix ''.json'' filename"
  shows "requires_settled (disk (requires_step jd filename st)) (path_join jd filename)"
proof -
  from requires_step_cases [of jd filename st] show ?thesis
  proof
    assume same: "requires_step jd filename st = st"
    have "\<not> (\<exists>d. bind (read_json (disk st) (path_join jd filename)) add_requires = Inr (Some d))"
    proof
      assume "\<exists>d. bind (read_json (disk st) (path_join jd filename)) add_requires = Inr (Some d)"
      then obtain d where "bind (read_json (disk st) (path_join jd filename)) add_requires = Inr (Some d)"
        by blast
      with assms have "written (requires_step jd filename st) = written st @ [path_join jd filename]"
        by (simp add: requires_step_def Let_def)
      with same show False by simp
    qed
    then show ?thesis
      by (auto simp: same requires_settled_def split: sum.splits option.splits)
  next
    assume "\<exists>data data'. suffix ''.json'' filename \<and>
      read_json (disk st) (path_join jd filename) = Inr data \<and>
      add_requires data = Inr (Some data') \<and>
      requires_step jd filename st =
        \<lparr>updated_count = updated_count st + 1,
         written = written st @ [path_join jd filename],
         disk = (disk st)(path_join jd filename \<mapsto> Doc data')\<rparr>"
    then show ?thesis by (auto simp: requires_settled_write)
  qed
qed

lemma requires_pass_settled:
  "requires_settled (disk st) q \<Longrightarrow> requires_settled (disk (requires_pass jd names st)) q"
  by (induction names arbitrary: st) (simp_all add: requires_step_settled)

lemma requires_pass_settles:
  "filename \<in> set names \<Longrightarrow> suffix ''.json'' filename \<Longrightarrow>
   requires_settled (disk (requires_pass jd names st)) (path_join jd filename)"
proof (induction names arbitrary: st)
  case Nil
  then show ?case by simp
next
  case (Cons n names)
  show ?case
  proof (cases "filename \<in> set names")
    case True
    with Cons show ?thesis by simp
  next
    case False
    with Cons.prems have "n = filename" by simp
    then show ?thesis
      using Cons.prems(2) by (simp add: requires_pass_settled requires_step_settles)
  qed
qed

lemma requires_step_on_settled:
  "(suffix ''.json'' filename \<longrightarrow> requires_settled (disk st) (path_join jd filename)) \<Longrightarrow>
   requires_step jd filename st = st"
  by (auto simp: requires_step_def requires_settled_def Let_def split: sum.splits option.splits)

lemma requires_pass_on_settled:
  "(\<And>filename. filename \<in> set names \<Longrightarrow> suffix ''.json'' filename \<Longrightarrow>
      requires_settled (disk st) (path_join jd filename)) \<Longrightarrow>
   requires_pass jd names st = st"
  by (induction names arbitrary: st) (simp_all add: requires_step_on_settled)

lemma build_tag_mappings_corpus:
  "build_tag_mappings s w = (tm, s1, w1) \<Longrightarrow>
   files w1 = files w \<and> json_listing w1 = json_listing w \<and> json_dir s1 = json_dir s"
  by (cases "cache w")
     (auto simp: build_tag_mappings_def save_tag_cache_def write_cache_def Let_def
           split: option.splits if_splits)

lemma mutation_parts:
  assumes "add_requires_info_to_jsons s w = (m, s1, w1)"
  obtains tm where
    "tag_pass_end m = tag_pass (json_dir s) tm (start_pass (files w))"
    "requires_pass_end m =
       requires_pass (json_dir s) (json_listing w) (start_pass (disk (tag_pass_end m)))"
    "requires_updated_count m = updated_count (requires_pass_end m)"
    "files w1 = disk (requires_pass_end m)" "json_listing w1 = json_listing w"
    "json_dir s1 = json_dir s"
proof -
  obtain tm s0 w0 where b: "build_tag_mappings s w = (tm, s0, w0)"
    by (cases "build_tag_mappings s w") auto
  note c = build_tag_mappings_corpus [OF b]
  from assms b c show ?thesis
    by (intro that [of tm]) (auto simp: add_requires_info_to_jsons_def Let_def)
qed

text \<open>
  Claim C6. After one run of \<open>add_requires_info_to_jsons\<close>, in a second run on the
  resulting corpus (by a searcher over the same directory) the requires pass appends
  nothing: it writes no document, leaves every file as the tag pass of that run left
  it, and the count of documents updated with requires information is 0.
\<close>

theorem requires_pass_idempotent:
  assumes "add_requires_info_to_jsons s w = (m1, s1, w1)"
    and "add_requires_info_to_jsons s' w1 = (m2, s2, w2)"
    and "json_dir s' = json_dir s"
  shows "requires_updated_count m2 = 0 \<and>
         written (requires_pass_end m2) = [] \<and>
         disk (requires_pass_end m2) = disk (tag_pass_end m2)"
proof -
  from assms(1) obtain tm1 where
    r1: "requires_pass_end m1 =
           requires_pass (json_dir s) (json_listing w) (start_pass (disk (tag_pass_end m1)))"
    and f1: "files w1 = disk (requires_pass_end m1)" and l1: "json_listing w1 = json_listing w"
    by (rule mutation_parts)
  from assms(2) obtain tm2 where
    t2: "tag_pass_end m2 = tag_pass (json_dir s') tm2 (start_pass (files w1))"
    and r2: "requires_pass_end m2 =
           requires_pass (json_dir s') (json_listing w1) (start_pass (disk (tag_pass_end m2)))"
    and c2: "requires_updated_count m2 = updated_count (requires_pass_end m2)"
    by (rule mutation_parts)
  have settled: "requires_settled (disk (start_pass (disk (tag_pass_end m2)))) (path_join (json_dir s') filename)"
    if "filename \<in> set (json_listing w1)" "suffix ''.json'' filename" for filename
  proof -
    have "requires_settled (files w1) (path_join (json_dir s) filename)"
      unfolding f1 r1 using that l1 by (simp add: requires_pass_settles)
    then have "requires_settled (disk (start_pass (files w1))) (path_join (json_dir s') filename)"
      by (simp add: start_pass_def assms(3))
    then have "requires_settled (disk (tag_pass_end m2)) (path_join (json_dir s') filename)"
      unfolding t2 by (rule tag_pass_settled)
    then show ?thesis by (simp add: start_pass_def)
  qed
  have "requires_pass_end m2 = start_pass (disk (tag_pass_end m2))"
    unfolding r2 by (rule requires_pass_on_settled) (rule settled)
  then show ?thesis by (simp add: c2 start_pass_def)
qed

theorem requires_pass_idempotent_witness:
  "requires_updated_count (first_run (new_searcher ''json'') media_world) = 1 \<and>
   disk (requires_pass_end (first_run (new_searcher ''json'') media_world)) ''json/m.json'' =
     Some (Doc (JObj [(''info'', JObj [(''tags'', JArr [JStr ''wood'']),
                        (''requires'', JArr [JStr ''texturebuf'', JStr ''texture'', JStr ''imagebuf''])]),
                      (''renderpass'', JArr [media_pass])])) \<and>
   requires_updated_count (second_run (new_searcher ''json'') media_world) = 0 \<and>
   written (requires_pass_end (second_run (new_searcher ''json'') media_world)) = []"
proof -
  let ?s = "new_searcher ''json''"
  let ?a = "add_requires_info_to_jsons ?s media_world"
  let ?b = "add_requires_info_to_jsons (fst (snd ?a)) (snd (snd ?a))"
  have h1: "?a = (fst ?a, fst (snd ?a), snd (snd ?a))" by simp
  have h2: "?b = (fst ?b, fst (snd ?b), snd (snd ?b))" by simp
  have h3: "json_dir (fst (snd ?a)) = json_dir ?s" by code_simp
  have sr: "second_run ?s media_world = fst ?b"
    by (simp add: second_run_def split_beta)
  have v: "requires_updated_count (first_run ?s media_world) = 1 \<and>
     disk (requires_pass_end (first_run ?s media_world)) ''json/m.json'' =
     Some (Doc (JObj [(''info'', JObj [(''tags'', JArr [JStr ''wood'']),
                        (''requires'', JArr [JStr ''texturebuf'', JStr ''texture'', JStr ''imagebuf''])]),
                      (''renderpass'', JArr [media_pass])]))"
    by code_simp
  from requires_pass_idempotent [OF h1 h2 h3] v show ?thesis by (simp add: sr)
qed

end
